theory Spec2Isabelle
  imports
    Main
    "HOL-Library.Word"
    "HOL-Library.Char_ord"
    "HOL-Library.List_Lexorder"
begin

unbundle bit_operations_syntax

section \<open>Buffers and SHA-256\<close>

text \<open>
  A Node \<^verbatim>\<open>Buffer\<close> is a list of bytes. \<^verbatim>\<open>ContentHash.fromContent\<close> calls
  \<^verbatim>\<open>crypto.createHash("sha256").update(content).digest("hex")\<close>; the digest is modelled
  after FIPS 180-4 on 32-bit words, rendered as 64 lowercase hexadecimal characters.
\<close>

type_synonym byte = "8 word"
type_synonym buffer = "byte list"
type_synonym u32 = "32 word"

definition K256 :: "u32 list" where
  "K256 =
     [0x428a2f98, 0x71374491, 0xb5c0fbcf, 0xe9b5dba5, 0x3956c25b, 0x59f111f1, 0x923f82a4, 0xab1c5ed5] @
     [0xd807aa98, 0x12835b01, 0x243185be, 0x550c7dc3, 0x72be5d74, 0x80deb1fe, 0x9bdc06a7, 0xc19bf174] @
     [0xe49b69c1, 0xefbe4786, 0x0fc19dc6, 0x240ca1cc, 0x2de92c6f, 0x4a7484aa, 0x5cb0a9dc, 0x76f988da] @
     [0x983e5152, 0xa831c66d, 0xb00327c8, 0xbf597fc7, 0xc6e00bf3, 0xd5a79147, 0x06ca6351, 0x14292967] @
     [0x27b70a85, 0x2e1b2138, 0x4d2c6dfc, 0x53380d13, 0x650a7354, 0x766a0abb, 0x81c2c92e, 0x92722c85] @
     [0xa2bfe8a1, 0xa81a664b, 0xc24b8b70, 0xc76c51a3, 0xd192e819, 0xd6990624, 0xf40e3585, 0x106aa070] @
     [0x19a4c116, 0x1e376c08, 0x2748774c, 0x34b0bcb5, 0x391c0cb3, 0x4ed8aa4a, 0x5b9cca4f, 0x682e6ff3] @
     [0x748f82ee, 0x78a5636f, 0x84c87814, 0x8cc70208, 0x90befffa, 0xa4506ceb, 0xbef9a3f7, 0xc67178f2]"

definition H256 :: "u32 list" where
  "H256 = [0x6a09e667, 0xbb67ae85, 0x3c6ef372, 0xa54ff53a] @
          [0x510e527f, 0x9b05688c, 0x1f83d9ab, 0x5be0cd19]"

definition rotr :: "nat \<Rightarrow> u32 \<Rightarrow> u32" where
  "rotr n x = drop_bit n x OR push_bit (32 - n) x"

definition Ch :: "u32 \<Rightarrow> u32 \<Rightarrow> u32 \<Rightarrow> u32" where
  "Ch x y z = (x AND y) XOR (NOT x AND z)"

definition Maj :: "u32 \<Rightarrow> u32 \<Rightarrow> u32 \<Rightarrow> u32" where
  "Maj x y z = (x AND y) XOR (x AND z) XOR (y AND z)"

definition Sigma0 :: "u32 \<Rightarrow> u32" where
  "Sigma0 x = rotr 2 x XOR rotr 13 x XOR rotr 22 x"

definition Sigma1 :: "u32 \<Rightarrow> u32" where
  "Sigma1 x = rotr 6 x XOR rotr 11 x XOR rotr 25 x"

definition sigma0 :: "u32 \<Rightarrow> u32" where
  "sigma0 x = rotr 7 x XOR rotr 18 x XOR drop_bit 3 x"

definition sigma1 :: "u32 \<Rightarrow> u32" where
  "sigma1 x = rotr 17 x XOR rotr 19 x XOR drop_bit 10 x"

definition be64 :: "64 word \<Rightarrow> buffer" where
  "be64 n = map (\<lambda>i. ucast (drop_bit (8 * (7 - i)) n)) [0..<8]"

definition pad :: "buffer \<Rightarrow> buffer" where
  "pad m = m @ [0x80] @ replicate ((119 - length m mod 64) mod 64) 0
             @ be64 (of_nat (8 * length m))"

fun be32 :: "buffer \<Rightarrow> u32 list" where
  "be32 (a # b # c # d # rest) =
     (push_bit 24 (ucast a) OR push_bit 16 (ucast b) OR push_bit 8 (ucast c) OR ucast d)
       # be32 rest"
| "be32 _ = []"

text \<open>The message schedule is built newest word first.\<close>

fun schedule :: "nat \<Rightarrow> u32 list \<Rightarrow> u32 list" where
  "schedule 0 w = w"
| "schedule (Suc n) w =
     schedule n ((sigma1 (w ! 1) + w ! 6 + sigma0 (w ! 14) + w ! 15) # w)"

fun rounds :: "u32 list \<Rightarrow> u32 list \<Rightarrow> u32 list \<Rightarrow> u32 list" where
  "rounds (k # ks) (w # ws) [a, b, c, d, e, f, g, h] =
     (let t1 = h + Sigma1 e + Ch e f g + k + w;
          t2 = Sigma0 a + Maj a b c
      in rounds ks ws [t1 + t2, a, b, c, d + t1, e, f, g])"
| "rounds _ _ v = v"

definition compress :: "u32 list \<Rightarrow> u32 list \<Rightarrow> u32 list" where
  "compress h m = map2 (+) h (rounds K256 (rev (schedule 48 (rev m))) h)"

function blocks :: "u32 list \<Rightarrow> u32 list list" where
  "blocks ws = (if length ws < 16 then [] else take 16 ws # blocks (drop 16 ws))"
  by pat_completeness auto
termination
  by (relation "measure length") auto

definition hexdigit :: "nat \<Rightarrow> char" where
  "hexdigit n = ''0123456789abcdef'' ! n"

definition hex32 :: "u32 \<Rightarrow> string" where
  "hex32 w = map (\<lambda>i. hexdigit (unat (drop_bit (4 * (7 - i)) w AND 15))) [0..<8]"

definition sha256 :: "buffer \<Rightarrow> string" where
  "sha256 m = concat (map hex32 (foldl compress H256 (blocks (be32 (pad m)))))"

section \<open>Domain errors\<close>

text \<open>
  \<^verbatim>\<open>FsErrors.ts\<close>: every thrown value is a branch of the model. \<open>Error\<close> is the plain
  JavaScript \<^verbatim>\<open>Error\<close> (thrown by \<^verbatim>\<open>FilePath.create\<close>, \<^verbatim>\<open>ContentHash.fromString\<close> and
  \<^verbatim>\<open>ensureTenant\<close>); \<open>DatabaseError\<close> is a constraint violation raised by PostgreSQL and
  \<open>FsError\<close> an error of \<^verbatim>\<open>fs/promises\<close>.
\<close>

datatype error =
    Error string
  | FileNotFoundError string
  | DirectoryNotFoundError string
  | FileAlreadyExistsError string
  | DirectoryNotEmptyError string
  | DatabaseError string
  | FsError string

section \<open>Value objects\<close>

definition startsWith :: "string \<Rightarrow> string \<Rightarrow> bool" where
  "startsWith s t = (take (length t) s = t)"

fun includes_str :: "string \<Rightarrow> string \<Rightarrow> bool" where
  "includes_str [] t = (t = [])"
| "includes_str (c # cs) t = (startsWith (c # cs) t \<or> includes_str cs t)"

text \<open>\<^verbatim>\<open>FilePath.create\<close>: the three checks in the source's order.\<close>

definition FilePath_create :: "string \<Rightarrow> error + string" where
  "FilePath_create path =
     (if \<not> startsWith path ''/'' then Inl (Error ''Path must be absolute (sart with /)'')
      else if includes_str path ''..'' then Inl (Error ''Path cannot contain .. (directory traversal'')
      else if includes_str path [CHR 0x00] then Inl (Error ''Path cannot contain null bytes'')
      else Inr path)"

definition is_hex_char :: "char \<Rightarrow> bool" where
  "is_hex_char c = (c \<in> set ''abcdef0123456789'')"

text \<open>\<^verbatim>\<open>ContentHash.fromString\<close>: the regular expression \<^verbatim>\<open>/^[a-f0-9]{64}$/\<close>.\<close>

definition ContentHash_fromString :: "string \<Rightarrow> error + string" where
  "ContentHash_fromString hash =
     (if length hash = 64 \<and> list_all is_hex_char hash then Inr hash
      else Inl (Error ''Invalid hash format''))"

definition ContentHash_fromContent :: "buffer \<Rightarrow> string" where
  "ContentHash_fromContent content = sha256 content"

section \<open>Entities\<close>

text \<open>
  \<^verbatim>\<open>FileNode\<close> and \<^verbatim>\<open>DirectoryNode\<close>. Timestamps are natural numbers. Size and MIME type
  are optional because \<^verbatim>\<open>getNodeByPath\<close> copies the nullable columns of the row into the
  object as they are.
\<close>

datatype node =
    FileNode (getPath: string) (getContentHash: string) (getSize: "nat option")
             (getMimeType: "string option") (getCreatedAt: nat) (getModifiedAt: nat)
  | DirectoryNode (getPath: string) (getCreatedAt: nat) (getModifiedAt: nat)

fun isFile :: "node \<Rightarrow> bool" where
  "isFile (FileNode _ _ _ _ _ _) = True"
| "isFile (DirectoryNode _ _ _) = False"

text \<open>\<^verbatim>\<open>new FileNode(path, hash, size, mimeType)\<close> and \<^verbatim>\<open>new DirectoryNode(path)\<close> at time \<open>now\<close>.\<close>

definition new_FileNode :: "nat \<Rightarrow> string \<Rightarrow> string \<Rightarrow> nat \<Rightarrow> string \<Rightarrow> node" where
  "new_FileNode now p h sz m = FileNode p h (Some sz) (Some m) now now"

definition new_DirectoryNode :: "nat \<Rightarrow> string \<Rightarrow> node" where
  "new_DirectoryNode now p = DirectoryNode p now now"

fun updateContent :: "nat \<Rightarrow> node \<Rightarrow> string \<Rightarrow> nat \<Rightarrow> node" where
  "updateContent now (FileNode p h sz m c md) newHash newSize = FileNode p newHash (Some newSize) m c now"
| "updateContent now (DirectoryNode p c md) newHash newSize = DirectoryNode p c md"

section \<open>The two stores\<close>

text \<open>
  The rows of the tables \<^verbatim>\<open>fs_nodes\<close> and \<^verbatim>\<open>blobs\<close> of \<^verbatim>\<open>001_initial_schema.sql\<close> (with the
  \<^verbatim>\<open>mime_type\<close> column of the second migration), in insertion order. The tenants table
  and the UUID syntax of tenant ids are outside the model. A text is held as the bytes of
  its UTF-8 encoding.
\<close>

record fs_node_row =
  n_tenant_id :: string
  n_path :: string
  n_type :: string
  n_content_hash :: "string option"
  n_size :: "nat option"
  n_mime_type :: "string option"
  n_created_at :: nat
  n_modified_at :: nat

record blob_row =
  b_content_hash :: string
  b_reference_count :: int
  b_size :: nat
  b_created_at :: nat
  b_last_accessed_at :: nat

text \<open>
  Every call the services make on \<^verbatim>\<open>IMetadataRepository\<close> and \<^verbatim>\<open>IBlobStorage\<close> is
  recorded, in order, in the history \<open>calls\<close> of the state.
\<close>

datatype call =
    CreateNode string
  | GetNodeByPath string
  | UpdateNode string
  | DeleteNode string
  | ListChildren string
  | IncrementBlobRefCount string
  | DecrementBlobRefCount string
  | GetOrphanBlobs
  | BlobWrite string
  | BlobRead string
  | BlobExists string
  | BlobDelete string
  | BlobDeleteMany "string list"

text \<open>
  \<open>files\<close> is the directory tree below \<^verbatim>\<open>basePath\<close> of \<^verbatim>\<open>LocalBlobStorage\<close>: a file is named
  by its path components. \<open>collation\<close> is the order in which the database sorts text
  (\<open>collation s a b\<close>: \<open>a\<close> is not after \<open>b\<close>); it is fixed when the database is created.
\<close>

record state =
  currentTenantId :: "string option"
  collation :: "string \<Rightarrow> string \<Rightarrow> bool"
  fs_nodes :: "fs_node_row list"
  blobs :: "blob_row list"
  files :: "string list \<rightharpoonup> buffer"
  calls :: "call list"

type_synonym 'a io = "state \<Rightarrow> (error + 'a) \<times> state"

definition return_io :: "'a \<Rightarrow> 'a io" where
  "return_io a s = (Inr a, s)"

definition throw_io :: "error \<Rightarrow> 'a io" where
  "throw_io e s = (Inl e, s)"

definition bind_io :: "'a io \<Rightarrow> ('a \<Rightarrow> 'b io) \<Rightarrow> 'b io" where
  "bind_io m f s = (case m s of (Inl e, s') \<Rightarrow> (Inl e, s') | (Inr a, s') \<Rightarrow> f a s')"

definition lift_io :: "error + 'a \<Rightarrow> 'a io" where
  "lift_io r s = (r, s)"

definition record_call :: "call \<Rightarrow> unit io" where
  "record_call c s = (Inr (), s\<lparr>calls := calls s @ [c]\<rparr>)"

subsection \<open>PostgresRepository: the SQL statements\<close>

text \<open>
  Each statement of the \<^verbatim>\<open>SQL\<close> object is a function of its parameters and the table.
  A statement that PostgreSQL rejects returns a \<open>DatabaseError\<close> and leaves the table as
  it was.
\<close>

text \<open>
  The server refuses a text parameter that holds the byte 0 (error 22021). The paths
  given to \<^verbatim>\<open>getNodeByPath\<close>, \<^verbatim>\<open>deleteNode\<close> and \<^verbatim>\<open>listChildren\<close> reach their statements
  as the caller wrote them; the other statements take their texts from \<^verbatim>\<open>FilePath\<close> and
  \<^verbatim>\<open>ContentHash\<close> objects, which hold no such byte.
\<close>

definition text_ok :: "string \<Rightarrow> bool" where
  "text_ok p = (CHR 0x00 \<notin> set p)"

definition invalid_byte_sequence :: error where
  "invalid_byte_sequence = DatabaseError ''invalid byte sequence for encoding UTF8: 0x00''"

definition at_path :: "string \<Rightarrow> string \<Rightarrow> fs_node_row \<Rightarrow> bool" where
  "at_path tenantId p r = (n_tenant_id r = tenantId \<and> n_path r = p)"

text \<open>\<^verbatim>\<open>WHERE tenant_id = $1 AND path = $2\<close>\<close>

definition rows_at :: "string \<Rightarrow> string \<Rightarrow> fs_node_row list \<Rightarrow> fs_node_row list" where
  "rows_at tenantId p rows = filter (at_path tenantId p) rows"

text \<open>
  The entry of a row in the index of \<^verbatim>\<open>UNIQUE (tenant_id, path)\<close>: a header of 8 bytes,
  the uuid of 16 bytes and the path with its length word (1 byte before a path of up to
  126 bytes, 4 bytes before a longer one), rounded up to a multiple of 8 bytes. The
  server refuses an entry above 2704 bytes, a third of a page (error 54000). The size
  here is that of the path as it is: a path of up to 2676 bytes always fits. The server
  first tries to compress a longer key and stores it if that makes it fit; here every
  longer path is refused, and the properties below speak of paths that fit.
\<close>

definition index_row_size :: "string \<Rightarrow> nat" where
  "index_row_size p =
     (let n = 8 + 16 + (if length p \<le> 126 then 1 else 4) + length p
      in 8 * ((n + 7) div 8))"

text \<open>
  \<^verbatim>\<open>INSERT_FILE_NODE\<close> and \<^verbatim>\<open>INSERT_DIRECTORY_NODE\<close>: the insert fails on an index entry
  that is too large and on \<^verbatim>\<open>UNIQUE (tenant_id, path)\<close>.
\<close>

definition INSERT_NODE :: "fs_node_row \<Rightarrow> fs_node_row list \<Rightarrow> error + fs_node_row list" where
  "INSERT_NODE row rows =
     (if 2704 < index_row_size (n_path row)
      then Inl (DatabaseError ''index row size exceeds btree version 4 maximum 2704'')
      else if list_ex (at_path (n_tenant_id row) (n_path row)) rows
      then Inl (DatabaseError ''duplicate key value violates unique constraint'')
      else Inr (rows @ [row]))"

definition GET_NODE_BY_PATH ::
    "string \<Rightarrow> string \<Rightarrow> fs_node_row list \<Rightarrow> error + fs_node_row list" where
  "GET_NODE_BY_PATH tenantId p rows =
     (if text_ok p then Inr (rows_at tenantId p rows) else Inl invalid_byte_sequence)"

definition UPDATE_FILE_NODE ::
    "string \<Rightarrow> nat option \<Rightarrow> string option \<Rightarrow> nat \<Rightarrow> string \<Rightarrow> string
       \<Rightarrow> fs_node_row list \<Rightarrow> fs_node_row list" where
  "UPDATE_FILE_NODE contentHash sz mimeType modifiedAt tenantId p rows =
     map (\<lambda>r. if at_path tenantId p r
               then r\<lparr>n_content_hash := Some contentHash, n_size := sz,
                      n_mime_type := mimeType, n_modified_at := modifiedAt\<rparr>
               else r) rows"

definition UPDATE_DIRECTORY_NODE ::
    "nat \<Rightarrow> string \<Rightarrow> string \<Rightarrow> fs_node_row list \<Rightarrow> fs_node_row list" where
  "UPDATE_DIRECTORY_NODE modifiedAt tenantId p rows =
     map (\<lambda>r. if at_path tenantId p r then r\<lparr>n_modified_at := modifiedAt\<rparr> else r) rows"

definition DELETE_NODE ::
    "string \<Rightarrow> string \<Rightarrow> fs_node_row list \<Rightarrow> error + fs_node_row list" where
  "DELETE_NODE tenantId p rows =
     (if text_ok p then Inr (filter (\<lambda>r. \<not> at_path tenantId p r) rows)
      else Inl invalid_byte_sequence)"

text \<open>
  The SQL operator \<^verbatim>\<open>LIKE\<close>: \<^verbatim>\<open>%\<close> matches any run of characters, \<^verbatim>\<open>_\<close> any one
  character (a byte and the continuation bytes of UTF-8 that follow it), and a backslash
  makes the next pattern character literal.
\<close>

definition is_continuation :: "char \<Rightarrow> bool" where
  "is_continuation c = (CHR 0x80 \<le> c \<and> c \<le> CHR 0xBF)"

fun like_match :: "string \<Rightarrow> string \<Rightarrow> bool" where
  "like_match [] s = (s = [])"
| "like_match (p # ps) [] = (p = CHR ''%'' \<and> like_match ps [])"
| "like_match (p # ps) (c # cs) =
     (if p = CHR ''%'' then like_match ps (c # cs) \<or> like_match (p # ps) cs
      else if p = CHR ''_'' then like_match ps (dropWhile is_continuation cs)
      else if p = CHR 0x5C then (case ps of [] \<Rightarrow> False | q # qs \<Rightarrow> q = c \<and> like_match qs cs)
      else p = c \<and> like_match ps cs)"

text \<open>\<^verbatim>\<open>LENGTH(path) - LENGTH(REPLACE(path, '/', ''))\<close>\<close>

definition sql_slash_count :: "string \<Rightarrow> int" where
  "sql_slash_count p = int (length p) - int (length (filter (\<lambda>c. c \<noteq> CHR ''/'') p))"

text \<open>
  \<^verbatim>\<open>ORDER BY type DESC, path ASC\<close>, as a stable insertion sort; \<open>le\<close> is the order of the
  database's collation.
\<close>

definition row_le :: "(string \<Rightarrow> string \<Rightarrow> bool) \<Rightarrow> fs_node_row \<Rightarrow> fs_node_row \<Rightarrow> bool" where
  "row_le le r1 r2 = ((le (n_type r2) (n_type r1) \<and> n_type r1 \<noteq> n_type r2)
                      \<or> (n_type r1 = n_type r2 \<and> le (n_path r1) (n_path r2)))"

fun insert_row ::
    "(string \<Rightarrow> string \<Rightarrow> bool) \<Rightarrow> fs_node_row \<Rightarrow> fs_node_row list \<Rightarrow> fs_node_row list" where
  "insert_row le r [] = [r]"
| "insert_row le r (x # xs) = (if row_le le r x then r # x # xs else x # insert_row le r xs)"

definition order_rows ::
    "(string \<Rightarrow> string \<Rightarrow> bool) \<Rightarrow> fs_node_row list \<Rightarrow> fs_node_row list" where
  "order_rows le rows = foldr (insert_row le) rows []"

definition LIST_CHILDREN ::
    "(string \<Rightarrow> string \<Rightarrow> bool) \<Rightarrow> string \<Rightarrow> string \<Rightarrow> string \<Rightarrow> int \<Rightarrow> fs_node_row list
       \<Rightarrow> error + fs_node_row list" where
  "LIST_CHILDREN le tenantId pattern directoryPath depth rows =
     (if text_ok pattern \<and> text_ok directoryPath
      then Inr (order_rows le (filter (\<lambda>r. n_tenant_id r = tenantId
                                      \<and> like_match pattern (n_path r)
                                      \<and> n_path r \<noteq> directoryPath
                                      \<and> sql_slash_count (n_path r) = depth) rows))
      else Inl invalid_byte_sequence)"

text \<open>
  \<^verbatim>\<open>INCREMENT_BLOB_REF\<close>: insert with count 1, or on conflict add one. The column is a
  32-bit \<^verbatim>\<open>INTEGER\<close>, so the addition fails above 2147483647.
\<close>

definition has_hash :: "string \<Rightarrow> blob_row \<Rightarrow> bool" where
  "has_hash h b = (b_content_hash b = h)"

definition INCREMENT_BLOB_REF :: "nat \<Rightarrow> string \<Rightarrow> blob_row list \<Rightarrow> error + blob_row list" where
  "INCREMENT_BLOB_REF now contentHash rows =
     (if \<not> list_ex (has_hash contentHash) rows
      then Inr (rows @ [\<lparr>b_content_hash = contentHash, b_reference_count = 1, b_size = 0,
                          b_created_at = now, b_last_accessed_at = now\<rparr>])
      else if list_ex (\<lambda>b. has_hash contentHash b \<and> 2147483647 < b_reference_count b + 1) rows
      then Inl (DatabaseError ''integer out of range'')
      else Inr (map (\<lambda>b. if has_hash contentHash b
                          then b\<lparr>b_reference_count := b_reference_count b + 1,
                                 b_last_accessed_at := now\<rparr>
                          else b) rows))"

text \<open>
  \<^verbatim>\<open>DECREMENT_BLOB_REF\<close>: the update fails on \<^verbatim>\<open>CHECK (reference_count >= 0)\<close>. The
  result is the table and the \<^verbatim>\<open>RETURNING reference_count\<close> values.
\<close>

definition DECREMENT_BLOB_REF ::
    "nat \<Rightarrow> string \<Rightarrow> blob_row list \<Rightarrow> error + (int list \<times> blob_row list)" where
  "DECREMENT_BLOB_REF now contentHash rows =
     (if list_ex (\<lambda>b. has_hash contentHash b \<and> b_reference_count b - 1 < 0) rows
      then Inl (DatabaseError ''violates check constraint'')
      else Inr (map (\<lambda>b. b_reference_count b - 1) (filter (has_hash contentHash) rows),
                map (\<lambda>b. if has_hash contentHash b
                          then b\<lparr>b_reference_count := b_reference_count b - 1,
                                 b_last_accessed_at := now\<rparr>
                          else b) rows))"

text \<open>
  \<^verbatim>\<open>GET_ORPHAN_BLOBS\<close>: \<^verbatim>\<open>WHERE reference_count = 0 ORDER BY last_accessed_at ASC LIMIT 1000\<close>.
\<close>

definition GET_ORPHAN_BLOBS :: "blob_row list \<Rightarrow> string list" where
  "GET_ORPHAN_BLOBS rows =
     map b_content_hash
       (take 1000 (sort_key b_last_accessed_at (filter (\<lambda>b. b_reference_count b = 0) rows)))"

subsection \<open>PostgresRepository: the methods\<close>

text \<open>\<^verbatim>\<open>setTenant\<close> and \<^verbatim>\<open>ensureTenant\<close>: a null or empty tenant id is "not set".\<close>

definition setTenant :: "string \<Rightarrow> state \<Rightarrow> state" where
  "setTenant tenantId s = s\<lparr>currentTenantId := Some tenantId\<rparr>"

definition ensureTenant :: "string io" where
  "ensureTenant s =
     (case currentTenantId s of
        None \<Rightarrow> (Inl (Error ''Tenant not set''), s)
      | Some t \<Rightarrow> if t = [] then (Inl (Error ''Tenant not set''), s) else (Inr t, s))"

definition node_row :: "string \<Rightarrow> node \<Rightarrow> fs_node_row" where
  "node_row tenantId nd =
     (case nd of
        FileNode p h sz m c md \<Rightarrow>
          \<lparr>n_tenant_id = tenantId, n_path = p, n_type = ''file'', n_content_hash = Some h,
           n_size = sz, n_mime_type = m, n_created_at = c, n_modified_at = md\<rparr>
      | DirectoryNode p c md \<Rightarrow>
          \<lparr>n_tenant_id = tenantId, n_path = p, n_type = ''directory'', n_content_hash = None,
           n_size = None, n_mime_type = None, n_created_at = c, n_modified_at = md\<rparr>)"

definition createNode :: "node \<Rightarrow> unit io" where
  "createNode nd =
     bind_io (record_call (CreateNode (getPath nd))) (\<lambda>_.
     bind_io ensureTenant (\<lambda>tenantId s.
       case INSERT_NODE (node_row tenantId nd) (fs_nodes s) of
         Inl e \<Rightarrow> (Inl e, s)
       | Inr rows \<Rightarrow> (Inr (), s\<lparr>fs_nodes := rows\<rparr>)))"

text \<open>
  A row is turned back into an object through \<^verbatim>\<open>FilePath.create\<close> and, for a file,
  \<^verbatim>\<open>ContentHash.fromString\<close> (a null hash fails the regular expression).
\<close>

definition row_to_node :: "fs_node_row \<Rightarrow> error + node" where
  "row_to_node row =
     (case FilePath_create (n_path row) of
        Inl e \<Rightarrow> Inl e
      | Inr filePath \<Rightarrow>
          if n_type row = ''file'' then
            (case n_content_hash row of
               None \<Rightarrow> Inl (Error ''Invalid hash format'')
             | Some h \<Rightarrow>
                 (case ContentHash_fromString h of
                    Inl e \<Rightarrow> Inl e
                  | Inr contentHash \<Rightarrow>
                      Inr (FileNode filePath contentHash (n_size row) (n_mime_type row)
                             (n_created_at row) (n_modified_at row))))
          else Inr (DirectoryNode filePath (n_created_at row) (n_modified_at row)))"

definition first_node :: "fs_node_row list \<Rightarrow> error + node option" where
  "first_node rows =
     (case rows of
        [] \<Rightarrow> Inr None
      | row # _ \<Rightarrow> (case row_to_node row of Inl e \<Rightarrow> Inl e | Inr nd \<Rightarrow> Inr (Some nd)))"

definition getNodeByPath :: "string \<Rightarrow> node option io" where
  "getNodeByPath p =
     bind_io (record_call (GetNodeByPath p)) (\<lambda>_.
     bind_io ensureTenant (\<lambda>tenantId s.
       case GET_NODE_BY_PATH tenantId p (fs_nodes s) of
         Inl e \<Rightarrow> (Inl e, s)
       | Inr rows \<Rightarrow> (first_node rows, s)))"

definition updateNode :: "node \<Rightarrow> unit io" where
  "updateNode nd =
     bind_io (record_call (UpdateNode (getPath nd))) (\<lambda>_.
     bind_io ensureTenant (\<lambda>tenantId s.
       (Inr (), s\<lparr>fs_nodes :=
          (case nd of
             FileNode p h sz m c md \<Rightarrow> UPDATE_FILE_NODE h sz m md tenantId p (fs_nodes s)
           | DirectoryNode p c md \<Rightarrow> UPDATE_DIRECTORY_NODE md tenantId p (fs_nodes s))\<rparr>)))"

definition deleteNode :: "string \<Rightarrow> unit io" where
  "deleteNode p =
     bind_io (record_call (DeleteNode p)) (\<lambda>_.
     bind_io ensureTenant (\<lambda>tenantId s.
       case DELETE_NODE tenantId p (fs_nodes s) of
         Inl e \<Rightarrow> (Inl e, s)
       | Inr rows \<Rightarrow> (Inr (), s\<lparr>fs_nodes := rows\<rparr>)))"

text \<open>\<^verbatim>\<open>(directoryPath.match(/\//g) || []).length\<close>\<close>

definition match_count :: "string \<Rightarrow> int" where
  "match_count p = int (length (filter (\<lambda>c. c = CHR ''/'') p))"

fun rows_to_nodes :: "fs_node_row list \<Rightarrow> error + node list" where
  "rows_to_nodes [] = Inr []"
| "rows_to_nodes (r # rs) =
     (case row_to_node r of
        Inl e \<Rightarrow> Inl e
      | Inr n \<Rightarrow> (case rows_to_nodes rs of Inl e \<Rightarrow> Inl e | Inr ns \<Rightarrow> Inr (n # ns)))"

definition children_pattern :: "string \<Rightarrow> string" where
  "children_pattern directoryPath =
     (if directoryPath = ''/'' then ''/%'' else directoryPath @ ''/%'')"

definition children_depth :: "string \<Rightarrow> int" where
  "children_depth directoryPath =
     (if directoryPath = ''/'' then 1 else match_count directoryPath + 1)"

definition listChildren :: "string \<Rightarrow> node list io" where
  "listChildren directoryPath =
     bind_io (record_call (ListChildren directoryPath)) (\<lambda>_.
     bind_io ensureTenant (\<lambda>tenantId s.
       case LIST_CHILDREN (collation s) tenantId (children_pattern directoryPath) directoryPath
              (children_depth directoryPath) (fs_nodes s) of
         Inl e \<Rightarrow> (Inl e, s)
       | Inr rows \<Rightarrow> (rows_to_nodes rows, s)))"

definition incrementBlobRefCount :: "nat \<Rightarrow> string \<Rightarrow> unit io" where
  "incrementBlobRefCount now contentHash =
     bind_io (record_call (IncrementBlobRefCount contentHash)) (\<lambda>_ s.
       case INCREMENT_BLOB_REF now contentHash (blobs s) of
         Inl e \<Rightarrow> (Inl e, s)
       | Inr rows \<Rightarrow> (Inr (), s\<lparr>blobs := rows\<rparr>))"

text \<open>
  \<^verbatim>\<open>decrementBlobRefCount\<close>: the statement runs between \<^verbatim>\<open>BEGIN\<close> and \<^verbatim>\<open>COMMIT\<close>; an
  error rolls back and is thrown again; with no row returned the result is 0.
\<close>

definition decrementBlobRefCount :: "nat \<Rightarrow> string \<Rightarrow> int io" where
  "decrementBlobRefCount now contentHash =
     bind_io (record_call (DecrementBlobRefCount contentHash)) (\<lambda>_ s.
       case DECREMENT_BLOB_REF now contentHash (blobs s) of
         Inl e \<Rightarrow> (Inl e, s)
       | Inr (returning, rows) \<Rightarrow>
           (case returning of
              [] \<Rightarrow> (Inr 0, s\<lparr>blobs := rows\<rparr>)
            | reference_count # _ \<Rightarrow> (Inr reference_count, s\<lparr>blobs := rows\<rparr>)))"

definition getOrphanBlobs :: "string list io" where
  "getOrphanBlobs =
     bind_io (record_call GetOrphanBlobs) (\<lambda>_ s. (Inr (GET_ORPHAN_BLOBS (blobs s)), s))"

subsection \<open>LocalBlobStorage\<close>

text \<open>\<^verbatim>\<open>getFilePath\<close>: the two shard directories and the file name, below \<^verbatim>\<open>basePath\<close>.\<close>

definition getFilePath :: "string \<Rightarrow> string list" where
  "getFilePath contentHash = [take 2 contentHash, take 2 (drop 2 contentHash), contentHash]"

definition blob_write :: "string \<Rightarrow> buffer \<Rightarrow> unit io" where
  "blob_write contentHash content =
     bind_io (record_call (BlobWrite contentHash)) (\<lambda>_ s.
       (Inr (), s\<lparr>files := (files s)(getFilePath contentHash \<mapsto> content)\<rparr>))"

definition blob_read :: "string \<Rightarrow> buffer io" where
  "blob_read contentHash =
     bind_io (record_call (BlobRead contentHash)) (\<lambda>_ s.
       case files s (getFilePath contentHash) of
         None \<Rightarrow> (Inl (FsError ''ENOENT''), s)
       | Some content \<Rightarrow> (Inr content, s))"

definition blob_exists :: "string \<Rightarrow> bool io" where
  "blob_exists contentHash =
     bind_io (record_call (BlobExists contentHash)) (\<lambda>_ s.
       (Inr (files s (getFilePath contentHash) \<noteq> None), s))"

definition unlink :: "string \<Rightarrow> state \<Rightarrow> state" where
  "unlink contentHash s = s\<lparr>files := (files s)(getFilePath contentHash := None)\<rparr>"

definition blob_delete :: "string \<Rightarrow> unit io" where
  "blob_delete contentHash =
     bind_io (record_call (BlobDelete contentHash)) (\<lambda>_ s. (Inr (), unlink contentHash s))"

definition blob_deleteMany :: "string list \<Rightarrow> unit io" where
  "blob_deleteMany contentHashes =
     bind_io (record_call (BlobDeleteMany contentHashes)) (\<lambda>_ s.
       (Inr (), fold unlink contentHashes s))"

section \<open>FileSystemService\<close>

text \<open>
  The operations take the time \<open>now\<close> at which they run (\<^verbatim>\<open>new Date()\<close>, \<^verbatim>\<open>NOW()\<close>) and,
  where a file is created, the table \<open>mime_lookup\<close> of the \<^verbatim>\<open>mime-types\<close> package.
\<close>

fun lastIndexOf :: "string \<Rightarrow> char \<Rightarrow> int" where
  "lastIndexOf [] c = - 1"
| "lastIndexOf (x # xs) c =
     (let i = lastIndexOf xs c in if 0 \<le> i then i + 1 else if x = c then 0 else - 1)"

definition substring :: "string \<Rightarrow> int \<Rightarrow> int \<Rightarrow> string" where
  "substring s a b =
     (let n = int (length s);
          a' = max 0 (min a n);
          b' = max 0 (min b n);
          lo = min a' b';
          hi = max a' b'
      in take (nat (hi - lo)) (drop (nat lo) s))"

text \<open>\<^verbatim>\<open>path.substring(0, path.lastIndexOf("/")) || "/"\<close>\<close>

definition parentPath :: "string \<Rightarrow> string" where
  "parentPath path =
     (let q = substring path 0 (lastIndexOf path CHR ''/'') in if q = [] then ''/'' else q)"

definition require_parent :: "string \<Rightarrow> unit io" where
  "require_parent path =
     bind_io (getNodeByPath (parentPath path)) (\<lambda>parent.
       case parent of
         None \<Rightarrow> throw_io (DirectoryNotFoundError (''Parent directory not found: '' @ parentPath path))
       | Some _ \<Rightarrow> return_io ())"

definition createDirectory :: "nat \<Rightarrow> string \<Rightarrow> unit io" where
  "createDirectory now path =
     bind_io (lift_io (FilePath_create path)) (\<lambda>filePath.
     bind_io (getNodeByPath path) (\<lambda>existing.
       case existing of
         Some _ \<Rightarrow> throw_io (FileAlreadyExistsError (''Path already exists: '' @ path))
       | None \<Rightarrow>
           bind_io (if path \<noteq> ''/'' then require_parent path else return_io ()) (\<lambda>_.
           createNode (new_DirectoryNode now filePath))))"

definition mimeType_of :: "(string \<Rightarrow> string option) \<Rightarrow> string \<Rightarrow> string" where
  "mimeType_of mime_lookup path =
     (case mime_lookup path of
        None \<Rightarrow> ''application/octet-stream''
      | Some m \<Rightarrow> if m = [] then ''application/octet-stream'' else m)"

definition writeFile :: "(string \<Rightarrow> string option) \<Rightarrow> nat \<Rightarrow> string \<Rightarrow> buffer \<Rightarrow> unit io" where
  "writeFile mime_lookup now path content =
     bind_io (lift_io (FilePath_create path)) (\<lambda>filePath.
     let contentHash = ContentHash_fromContent content; hashString = contentHash in
     bind_io (blob_exists hashString) (\<lambda>blobExists.
     bind_io (if \<not> blobExists then blob_write hashString content else return_io ()) (\<lambda>_.
     bind_io (getNodeByPath path) (\<lambda>existing.
       case existing of
         Some (FileNode p h sz m c md) \<Rightarrow>
           (let oldHash = h;
                existing' = updateContent now (FileNode p h sz m c md) contentHash (length content)
            in bind_io (updateNode existing') (\<lambda>_.
               bind_io (incrementBlobRefCount now hashString) (\<lambda>_.
               bind_io (decrementBlobRefCount now oldHash) (\<lambda>oldRefCount.
                 if oldRefCount = 0 then blob_delete oldHash else return_io ()))))
       | Some (DirectoryNode p c md) \<Rightarrow>
           throw_io (FileAlreadyExistsError (''Path is a directory: '' @ path))
       | None \<Rightarrow>
           bind_io (require_parent path) (\<lambda>_.
           bind_io (createNode (new_FileNode now filePath contentHash (length content)
                                  (mimeType_of mime_lookup path))) (\<lambda>_.
           incrementBlobRefCount now hashString))))))"

definition readFile :: "string \<Rightarrow> buffer io" where
  "readFile path =
     bind_io (getNodeByPath path) (\<lambda>nd.
       case nd of
         None \<Rightarrow> throw_io (FileNotFoundError (''File not found: '' @ path))
       | Some (DirectoryNode p c md) \<Rightarrow>
           throw_io (FileNotFoundError (''Path is a directory: '' @ path))
       | Some (FileNode p h sz m c md) \<Rightarrow> blob_read h)"

definition deleteFile :: "nat \<Rightarrow> string \<Rightarrow> unit io" where
  "deleteFile now path =
     bind_io (getNodeByPath path) (\<lambda>nd.
       case nd of
         None \<Rightarrow> throw_io (FileNotFoundError (''File not found: '' @ path))
       | Some (DirectoryNode p c md) \<Rightarrow>
           throw_io (FileNotFoundError (''Path is a directory: '' @ path))
       | Some (FileNode p h sz m c md) \<Rightarrow>
           bind_io (deleteNode path) (\<lambda>_.
           bind_io (decrementBlobRefCount now h) (\<lambda>refCount.
             if refCount = 0 then blob_delete h else return_io ())))"

definition deleteDirectory :: "string \<Rightarrow> unit io" where
  "deleteDirectory path =
     bind_io (getNodeByPath path) (\<lambda>nd.
       case nd of
         None \<Rightarrow> throw_io (DirectoryNotFoundError (''Directory not found: '' @ path))
       | Some (FileNode p h sz m c md) \<Rightarrow>
           throw_io (DirectoryNotFoundError (''Path is a file: '' @ path))
       | Some (DirectoryNode p c md) \<Rightarrow>
           bind_io (listChildren path) (\<lambda>children.
             if 0 < length children
             then throw_io (DirectoryNotEmptyError (''Directory not empty: '' @ path))
             else deleteNode path))"

definition listDirectory :: "string \<Rightarrow> node list io" where
  "listDirectory path =
     bind_io (getNodeByPath path) (\<lambda>nd.
       case nd of
         None \<Rightarrow> throw_io (DirectoryNotFoundError (''Directory not found: '' @ path))
       | Some (FileNode p h sz m c md) \<Rightarrow>
           throw_io (DirectoryNotFoundError (''Path is file: '' @ path))
       | Some (DirectoryNode p c md) \<Rightarrow> listChildren path)"

definition getInfo :: "string \<Rightarrow> node io" where
  "getInfo path =
     bind_io (getNodeByPath path) (\<lambda>nd.
       case nd of
         None \<Rightarrow> throw_io (FileNotFoundError (''Path not found: '' @ path))
       | Some n \<Rightarrow> return_io n)"

definition copyFile :: "(string \<Rightarrow> string option) \<Rightarrow> nat \<Rightarrow> string \<Rightarrow> string \<Rightarrow> unit io" where
  "copyFile mime_lookup now source destination =
     bind_io (readFile source) (\<lambda>content. writeFile mime_lookup now destination content)"

definition moveFile :: "(string \<Rightarrow> string option) \<Rightarrow> nat \<Rightarrow> string \<Rightarrow> string \<Rightarrow> unit io" where
  "moveFile mime_lookup now source destination =
     bind_io (copyFile mime_lookup now source destination) (\<lambda>_. deleteFile now source)"

section \<open>OrphanCleanupService\<close>

definition cleanup :: "nat io" where
  "cleanup =
     bind_io getOrphanBlobs (\<lambda>orphanHashes.
       if length orphanHashes = 0 then return_io 0
       else bind_io (blob_deleteMany orphanHashes) (\<lambda>_. return_io (length orphanHashes)))"

text \<open>
  \<^verbatim>\<open>while (true)\<close>: the loop may not return, so its result is optional and \<open>None\<close> stands
  for a run that never ends.
\<close>

partial_function (option) cleanupInBatches_loop ::
    "nat \<Rightarrow> nat \<Rightarrow> state \<Rightarrow> ((error + nat) \<times> state) option" where
  "cleanupInBatches_loop batchSize totalDeleted s =
     (case cleanup s of
        (Inl e, s') \<Rightarrow> Some (Inl e, s')
      | (Inr deleted, s') \<Rightarrow>
          if deleted < batchSize then Some (Inr (totalDeleted + deleted), s')
          else cleanupInBatches_loop batchSize (totalDeleted + deleted) s')"

definition cleanupInBatches :: "nat \<Rightarrow> state \<Rightarrow> ((error + nat) \<times> state) option" where
  "cleanupInBatches batchSize s = cleanupInBatches_loop batchSize 0 s"

section \<open>Vocabulary of the properties\<close>

text \<open>The result and the final state of running an operation.\<close>

definition result :: "'a io \<Rightarrow> state \<Rightarrow> error + 'a" where
  "result m s = fst (m s)"

definition after :: "'a io \<Rightarrow> state \<Rightarrow> state" where
  "after m s = snd (m s)"

text \<open>The store calls an operation makes, in order.\<close>

definition new_calls :: "'a io \<Rightarrow> state \<Rightarrow> call list" where
  "new_calls m s = drop (length (calls s)) (calls (snd (m s)))"

text \<open>\<open>precedes P Q cs\<close>: no call satisfying \<open>P\<close> comes after a call satisfying \<open>Q\<close>.\<close>

fun precedes :: "(call \<Rightarrow> bool) \<Rightarrow> (call \<Rightarrow> bool) \<Rightarrow> call list \<Rightarrow> bool" where
  "precedes P Q [] = True"
| "precedes P Q (c # cs) = ((\<not> Q c \<or> \<not> list_ex P cs) \<and> precedes P Q cs)"

fun isBlobWrite :: "call \<Rightarrow> bool" where
  "isBlobWrite (BlobWrite h) = True"
| "isBlobWrite _ = False"

fun isBlobCall :: "call \<Rightarrow> bool" where
  "isBlobCall (BlobWrite h) = True"
| "isBlobCall (BlobRead h) = True"
| "isBlobCall (BlobExists h) = True"
| "isBlobCall (BlobDelete h) = True"
| "isBlobCall (BlobDeleteMany hs) = True"
| "isBlobCall _ = False"

fun isIncrement :: "call \<Rightarrow> bool" where
  "isIncrement (IncrementBlobRefCount h) = True"
| "isIncrement _ = False"

fun isDecrement :: "call \<Rightarrow> bool" where
  "isDecrement (DecrementBlobRefCount h) = True"
| "isDecrement _ = False"

text \<open>A metadata insertion, a metadata update or a reference count increment.\<close>

fun isMetadataWrite :: "call \<Rightarrow> bool" where
  "isMetadataWrite (CreateNode p) = True"
| "isMetadataWrite (UpdateNode p) = True"
| "isMetadataWrite (IncrementBlobRefCount h) = True"
| "isMetadataWrite _ = False"

text \<open>The node the repository holds at a path of a tenant, read without a call.\<close>

definition node_at :: "state \<Rightarrow> string \<Rightarrow> string \<Rightarrow> error + node option" where
  "node_at s tenantId p =
     (case GET_NODE_BY_PATH tenantId p (fs_nodes s) of
        Inl e \<Rightarrow> Inl e
      | Inr rows \<Rightarrow> first_node rows)"

text \<open>The rows of \<^verbatim>\<open>blobs\<close> for a hash, and their reference counts.\<close>

definition blob_rows :: "state \<Rightarrow> string \<Rightarrow> blob_row list" where
  "blob_rows s h = filter (has_hash h) (blobs s)"

definition refcounts :: "state \<Rightarrow> string \<Rightarrow> int list" where
  "refcounts s h = map b_reference_count (blob_rows s h)"

text \<open>The bytes the blob store holds for a hash.\<close>

definition blob_at :: "state \<Rightarrow> string \<Rightarrow> buffer option" where
  "blob_at s h = files s (getFilePath h)"

text \<open>
  \<open>holds pre Q m\<close>: from every state, \<open>m\<close> only appends to the history of calls, and the
  calls it appends, put after \<open>pre\<close>, satisfy \<open>Q\<close>.
\<close>

definition holds :: "call list \<Rightarrow> (call list \<Rightarrow> bool) \<Rightarrow> 'a io \<Rightarrow> bool" where
  "holds pre Q m =
     (\<forall>s. calls (snd (m s)) = calls s @ new_calls m s \<and> Q (pre @ new_calls m s))"

text \<open>\<open>guarded g Q cs\<close>: no call satisfying \<open>Q\<close> comes before the first call \<open>g\<close>.\<close>

fun guarded :: "call \<Rightarrow> (call \<Rightarrow> bool) \<Rightarrow> call list \<Rightarrow> bool" where
  "guarded g Q [] = True"
| "guarded g Q (c # cs) = (if c = g then True else \<not> Q c \<and> guarded g Q cs)"

text \<open>The blob files after \<^verbatim>\<open>if (!blobExists) write(hash, content)\<close>.\<close>

definition files_after_write :: "state \<Rightarrow> buffer \<Rightarrow> (string list \<rightharpoonup> buffer)" where
  "files_after_write s content =
     (if files s (getFilePath (sha256 content)) = None
      then (files s)(getFilePath (sha256 content) \<mapsto> content) else files s)"

text \<open>The table \<^verbatim>\<open>blobs\<close> with \<^verbatim>\<open>last_accessed_at\<close> of a hash set to \<open>now\<close>.\<close>

definition touch_blob :: "nat \<Rightarrow> string \<Rightarrow> blob_row list \<Rightarrow> blob_row list" where
  "touch_blob now h rows =
     map (\<lambda>b. if has_hash h b then b\<lparr>b_last_accessed_at := now\<rparr> else b) rows"

text \<open>
  The nodes that the children query of \<^verbatim>\<open>listChildren\<close> gives for a directory, read
  without a call.
\<close>

definition children_of :: "state \<Rightarrow> string \<Rightarrow> string \<Rightarrow> error + node list" where
  "children_of s tenantId d =
     (case LIST_CHILDREN (collation s) tenantId (children_pattern d) d (children_depth d)
             (fs_nodes s) of
        Inl e \<Rightarrow> Inl e
      | Inr rows \<Rightarrow> rows_to_nodes rows)"

text \<open>
  \<open>is_child d p\<close>: the path \<open>p\<close> is \<open>d\<close>, a slash and a name without a slash (below the
  root: the slash and a name), and is not \<open>d\<close> itself.
\<close>

definition child_prefix :: "string \<Rightarrow> string" where
  "child_prefix d = (if d = ''/'' then ''/'' else d @ ''/'')"

definition is_child :: "string \<Rightarrow> string \<Rightarrow> bool" where
  "is_child d p = (startsWith p (child_prefix d) \<and> p \<noteq> d
                   \<and> CHR ''/'' \<notin> set (drop (length (child_prefix d)) p))"

text \<open>The rows of a tenant at the child paths of \<open>d\<close>, in table order.\<close>

definition child_rows :: "state \<Rightarrow> string \<Rightarrow> string \<Rightarrow> fs_node_row list" where
  "child_rows s tenantId d =
     filter (\<lambda>r. n_tenant_id r = tenantId \<and> is_child d (n_path r)) (fs_nodes s)"

text \<open>A text without the wildcards and the escape character of \<^verbatim>\<open>LIKE\<close>.\<close>

definition like_literal :: "string \<Rightarrow> bool" where
  "like_literal d = (CHR ''%'' \<notin> set d \<and> CHR ''_'' \<notin> set d \<and> CHR 0x5C \<notin> set d)"

text \<open>
  A collation orders text linearly. \<open>node_le le\<close> is the order of a listing: files before
  directories, and within each kind ascending by path.
\<close>

definition linear_order :: "(string \<Rightarrow> string \<Rightarrow> bool) \<Rightarrow> bool" where
  "linear_order le = ((\<forall>a b. le a b \<or> le b a)
                      \<and> (\<forall>a b c. le a b \<longrightarrow> le b c \<longrightarrow> le a c)
                      \<and> (\<forall>a b. le a b \<longrightarrow> le b a \<longrightarrow> a = b))"

definition node_le :: "(string \<Rightarrow> string \<Rightarrow> bool) \<Rightarrow> node \<Rightarrow> node \<Rightarrow> bool" where
  "node_le le n1 n2 = ((isFile n1 \<and> \<not> isFile n2)
                       \<or> (isFile n1 = isFile n2 \<and> le (getPath n1) (getPath n2)))"

subsection \<open>Sample data\<close>

text \<open>\<^verbatim>\<open>Buffer.from("Hello World")\<close>\<close>

definition hello :: buffer where
  "hello = [72, 101, 108, 108, 111, 32, 87, 111, 114, 108, 100]"

definition hello_hash :: string where
  "hello_hash = ''a591a6d40bf420404a011733cfb7b190d62c65bf0bcda32b57b277d9ad9f146e''"

definition tenant1 :: string where
  "tenant1 = ''7d9f0c1e-52aa-4c1b-9a57-3f2b6c0d8e11''"

text \<open>An empty store of a database with the collation \<^verbatim>\<open>C\<close>: text is ordered byte by byte.\<close>

definition empty_store :: state where
  "empty_store =
     \<lparr>currentTenantId = Some tenant1, collation = (\<lambda>a b. a \<le> b), fs_nodes = [], blobs = [],
      files = Map.empty, calls = []\<rparr>"

text \<open>A sample of the \<^verbatim>\<open>mime-types\<close> table, by file extension.\<close>

definition endsWith :: "string \<Rightarrow> string \<Rightarrow> bool" where
  "endsWith s t = (length t \<le> length s \<and> drop (length s - length t) s = t)"

definition sample_mime :: "string \<Rightarrow> string option" where
  "sample_mime path =
     (if endsWith path ''.txt'' then Some ''text/plain''
      else if endsWith path ''.png'' then Some ''image/png''
      else None)"

text \<open>The empty buffer has the digest \<open>empty_hash\<close>.\<close>

definition empty_hash :: string where
  "empty_hash = ''e3b0c44298fc1c149afbf4c8996fb92427ae41e4649b934ca495991b7852b855''"

text \<open>
  Sample stores: the tenant root alone; the root and \<^verbatim>\<open>/hello.txt\<close> holding
  "Hello World"; the root and the directory \<^verbatim>\<open>/docs\<close>; the root with \<^verbatim>\<open>/docs\<close>,
  \<^verbatim>\<open>/hello.txt\<close> and the empty file \<^verbatim>\<open>/empty.txt\<close>.
\<close>

definition root_store :: state where
  "root_store = after (createDirectory 1 ''/'') empty_store"

definition hello_store :: state where
  "hello_store = after (writeFile sample_mime 2 ''/hello.txt'' hello) root_store"

definition docs_store :: state where
  "docs_store = after (createDirectory 2 ''/docs'') root_store"

definition tree_store :: state where
  "tree_store =
     after (writeFile sample_mime 4 ''/empty.txt'' [])
       (after (writeFile sample_mime 3 ''/hello.txt'' hello)
          (after (createDirectory 2 ''/docs'') root_store))"

text \<open>
  A store in which one blob has lost its last reference: tenant root, then
  \<^verbatim>\<open>writeFile("/hello.txt", "Hello World")\<close>, then \<^verbatim>\<open>deleteFile("/hello.txt")\<close>.
\<close>

definition orphan_store :: state where
  "orphan_store =
     after (deleteFile 3 ''/hello.txt'')
       (after (writeFile sample_mime 2 ''/hello.txt'' hello)
          (after (createDirectory 1 ''/'') empty_store))"

section \<open>Basic facts\<close>

lemmas io_defs = return_io_def throw_io_def bind_io_def lift_io_def record_call_def
  result_def after_def

lemmas sql_defs = text_ok_def rows_at_def index_row_size_def is_continuation_def
  INSERT_NODE_def GET_NODE_BY_PATH_def UPDATE_FILE_NODE_def
  UPDATE_DIRECTORY_NODE_def DELETE_NODE_def LIST_CHILDREN_def INCREMENT_BLOB_REF_def
  DECREMENT_BLOB_REF_def GET_ORPHAN_BLOBS_def at_path_def has_hash_def order_rows_def
  row_le_def sql_slash_count_def

lemmas repo_defs = ensureTenant_def createNode_def getNodeByPath_def updateNode_def
  deleteNode_def listChildren_def incrementBlobRefCount_def decrementBlobRefCount_def
  getOrphanBlobs_def node_row_def row_to_node_def first_node_def match_count_def
  children_pattern_def children_depth_def

lemmas blob_defs = blob_write_def blob_read_def blob_exists_def blob_delete_def
  blob_deleteMany_def unlink_def getFilePath_def

lemmas svc_defs = createDirectory_def writeFile_def readFile_def deleteFile_def
  deleteDirectory_def listDirectory_def getInfo_def copyFile_def moveFile_def
  require_parent_def parentPath_def substring_def mimeType_of_def new_FileNode_def
  new_DirectoryNode_def FilePath_create_def startsWith_def ContentHash_fromContent_def

lemmas prim_defs = GET_NODE_BY_PATH_def DELETE_NODE_def
  createNode_def getNodeByPath_def updateNode_def deleteNode_def listChildren_def
  incrementBlobRefCount_def decrementBlobRefCount_def getOrphanBlobs_def
  blob_write_def blob_read_def blob_exists_def blob_delete_def blob_deleteMany_def ensureTenant_def
  return_io_def throw_io_def bind_io_def lift_io_def record_call_def

lemmas prim_splits = option.splits sum.splits prod.splits list.splits if_splits

subsection \<open>The digest is a well-formed hash\<close>

lemma length_rounds: "length v = 8 \<Longrightarrow> length (rounds ks ws v) = 8"
  by (induction ks ws v rule: rounds.induct) (simp_all add: Let_def)

lemma length_compress: "length h = 8 \<Longrightarrow> length (compress h m) = 8"
  by (simp add: compress_def length_rounds)

lemma length_foldl_compress: "length h = 8 \<Longrightarrow> length (foldl compress h ms) = 8"
  by (induction ms arbitrary: h) (simp_all add: length_compress)

lemma length_hex32: "length (hex32 w) = 8"
  by (simp add: hex32_def)

lemma nibble_bound: "unat (w AND (15 :: u32)) < 16"
proof -
  have "unat (w AND 15) \<le> unat (15 :: u32)"
    by (rule word_and_le1 [THEN word_le_nat_alt [THEN iffD1]])
  then show ?thesis by simp
qed

lemma hexdigit_is_hex: "n < 16 \<Longrightarrow> is_hex_char (hexdigit n)"
proof -
  assume "n < 16"
  then have "n \<in> set [0..<16]" by simp
  then show ?thesis
    unfolding hexdigit_def is_hex_char_def
    by (simp add: upt_rec) (elim disjE; simp)
qed

lemma hex32_is_hex: "list_all is_hex_char (hex32 w)"
  by (simp add: hex32_def list_all_iff hexdigit_is_hex nibble_bound)

lemma length_concat_hex32: "length (concat (map hex32 ws)) = 8 * length ws"
  by (induction ws) (simp_all add: length_hex32)

lemma sha256_length: "length (sha256 m) = 64"
  by (simp add: sha256_def length_concat_hex32 length_foldl_compress H256_def)

lemma sha256_is_hex: "list_all is_hex_char (sha256 m)"
  unfolding sha256_def list_all_iff
  using hex32_is_hex by (auto simp: list_all_iff)

lemma ContentHash_fromString_sha256 [simp]:
  "ContentHash_fromString (sha256 m) = Inr (sha256 m)"
  by (simp add: ContentHash_fromString_def sha256_length sha256_is_hex)

lemma sha256_hello: "sha256 hello = hello_hash"
  unfolding hello_def hello_hash_def by code_simp

lemma sha256_empty: "sha256 [] = empty_hash"
  unfolding empty_hash_def by code_simp

lemma sha256_hello_neq_empty [simp]: "sha256 hello \<noteq> sha256 []" "sha256 [] \<noteq> sha256 hello"
  by (simp_all add: sha256_hello sha256_empty hello_hash_def empty_hash_def)

subsection \<open>The store calls of the primitive operations\<close>

lemma calls_unlink [simp]: "calls (unlink h s) = calls s"
  by (simp add: unlink_def)

lemma calls_fold_unlink [simp]: "calls (fold unlink hs s) = calls s"
  by (induction hs arbitrary: s) simp_all

lemma blobs_unlink [simp]: "blobs (unlink h s) = blobs s"
  by (simp add: unlink_def)

lemma blobs_fold_unlink [simp]: "blobs (fold unlink hs s) = blobs s"
  by (induction hs arbitrary: s) simp_all

section \<open>Orphan reclamation\<close>

lemma cleanup_result: "fst (cleanup s) = Inr (length (GET_ORPHAN_BLOBS (blobs s)))"
  by (simp add: cleanup_def getOrphanBlobs_def blob_deleteMany_def io_defs)

lemma cleanup_blobs: "blobs (snd (cleanup s)) = blobs s"
  by (simp add: cleanup_def getOrphanBlobs_def blob_deleteMany_def io_defs)

text \<open>
  A pass leaves the table \<^verbatim>\<open>blobs\<close> as it was, so every pass fetches the same hashes:
  the loop returns only from a state with fewer than \<open>batchSize\<close> orphan rows.
\<close>

lemma cleanup_loop_returns_only_below_batch:
  assumes "cleanupInBatches_loop batchSize totalDeleted s = Some y"
  shows "length (GET_ORPHAN_BLOBS (blobs s)) < batchSize"
  using assms
proof (induction rule: cleanupInBatches_loop.raw_induct [rotated 1, consumes 1])
  case (1 loop batchSize totalDeleted s y)
  obtain r s' where c: "cleanup s = (r, s')" by (cases "cleanup s")
  from c cleanup_result [of s] have r: "r = Inr (length (GET_ORPHAN_BLOBS (blobs s)))" by simp
  from c cleanup_blobs [of s] have b: "blobs s' = blobs s" by simp
  show ?case
  proof (cases "length (GET_ORPHAN_BLOBS (blobs s)) < batchSize")
    case True
    then show ?thesis .
  next
    case False
    with 1(2) c r
    have "loop batchSize (totalDeleted + length (GET_ORPHAN_BLOBS (blobs s))) s' = Some y"
      by simp
    from 1(1) [OF this] b show ?thesis by simp
  qed
qed

lemma cleanupInBatches_never_returns:
  "batchSize \<le> length (GET_ORPHAN_BLOBS (blobs s)) \<Longrightarrow> cleanupInBatches batchSize s = None"
  unfolding cleanupInBatches_def
  using cleanup_loop_returns_only_below_batch [of batchSize 0 s]
  by (cases "cleanupInBatches_loop batchSize 0 s") auto

lemma cleanupInBatches_returns_below_batch:
  "length (GET_ORPHAN_BLOBS (blobs s)) < batchSize \<Longrightarrow>
     cleanupInBatches batchSize s
       = Some (Inr (length (GET_ORPHAN_BLOBS (blobs s))), snd (cleanup s))"
  unfolding cleanupInBatches_def
  using cleanup_result [of s]
  by (subst cleanupInBatches_loop.simps) (auto split: prod.splits sum.splits)

lemmas sample_defs = empty_store_def tenant1_def sample_mime_def endsWith_def

lemmas eval_defs = io_defs repo_defs sql_defs blob_defs svc_defs Let_def

section \<open>The calls of composed operations\<close>

lemma holds_return [simp]: "holds pre Q (return_io a) = Q pre"
  by (simp add: holds_def new_calls_def return_io_def)

lemma holds_throw [simp]: "holds pre Q (throw_io e) = Q pre"
  by (simp add: holds_def new_calls_def throw_io_def)

lemma holds_lift [simp]: "holds pre Q (lift_io r) = Q pre"
  by (simp add: holds_def new_calls_def lift_io_def)

lemma holds_bind:
  assumes "holds pre (\<lambda>tr. Q tr \<and> (\<forall>a. holds tr Q (f a))) m"
  shows "holds pre Q (bind_io m f)"
  unfolding holds_def
proof
  fix s
  define t1 where "t1 = new_calls m s"
  from assms have m: "calls (snd (m s)) = calls s @ t1" and q: "Q (pre @ t1)"
    and k: "\<And>a. holds (pre @ t1) Q (f a)"
    unfolding holds_def t1_def by auto
  show "calls (snd (bind_io m f s)) = calls s @ new_calls (bind_io m f) s
        \<and> Q (pre @ new_calls (bind_io m f) s)"
  proof (cases "m s")
    case (Pair r s')
    show ?thesis
    proof (cases r)
      case (Inl e)
      with Pair m q show ?thesis by (simp add: bind_io_def new_calls_def)
    next
      case (Inr a)
      define t2 where "t2 = new_calls (f a) s'"
      from k [of a] have "calls (snd (f a s')) = calls s' @ t2" and "Q ((pre @ t1) @ t2)"
        unfolding holds_def t2_def by auto
      with Pair Inr m show ?thesis by (simp add: bind_io_def new_calls_def)
    qed
  qed
qed

lemma holds_const:
  assumes "\<And>s. calls (snd (m s)) = calls s @ tr"
  shows "holds pre Q m = Q (pre @ tr)"
  unfolding holds_def new_calls_def by (simp add: assms)

lemma calls_prims:
  "calls (snd (createNode nd s)) = calls s @ [CreateNode (getPath nd)]"
  "calls (snd (getNodeByPath p s)) = calls s @ [GetNodeByPath p]"
  "calls (snd (updateNode nd s)) = calls s @ [UpdateNode (getPath nd)]"
  "calls (snd (deleteNode p s)) = calls s @ [DeleteNode p]"
  "calls (snd (listChildren p s)) = calls s @ [ListChildren p]"
  "calls (snd (incrementBlobRefCount now h s)) = calls s @ [IncrementBlobRefCount h]"
  "calls (snd (decrementBlobRefCount now h s)) = calls s @ [DecrementBlobRefCount h]"
  "calls (snd (getOrphanBlobs s)) = calls s @ [GetOrphanBlobs]"
  "calls (snd (blob_write h c s)) = calls s @ [BlobWrite h]"
  "calls (snd (blob_read h s)) = calls s @ [BlobRead h]"
  "calls (snd (blob_exists h s)) = calls s @ [BlobExists h]"
  "calls (snd (blob_delete h s)) = calls s @ [BlobDelete h]"
  "calls (snd (blob_deleteMany hs s)) = calls s @ [BlobDeleteMany hs]"
  by (simp_all add: prim_defs split: prim_splits)

lemma holds_prims [simp]:
  "holds pre Q (createNode nd) = Q (pre @ [CreateNode (getPath nd)])"
  "holds pre Q (getNodeByPath p) = Q (pre @ [GetNodeByPath p])"
  "holds pre Q (updateNode nd) = Q (pre @ [UpdateNode (getPath nd)])"
  "holds pre Q (deleteNode p) = Q (pre @ [DeleteNode p])"
  "holds pre Q (listChildren p) = Q (pre @ [ListChildren p])"
  "holds pre Q (incrementBlobRefCount now h) = Q (pre @ [IncrementBlobRefCount h])"
  "holds pre Q (decrementBlobRefCount now h) = Q (pre @ [DecrementBlobRefCount h])"
  "holds pre Q getOrphanBlobs = Q (pre @ [GetOrphanBlobs])"
  "holds pre Q (blob_write h c) = Q (pre @ [BlobWrite h])"
  "holds pre Q (blob_read h) = Q (pre @ [BlobRead h])"
  "holds pre Q (blob_exists h) = Q (pre @ [BlobExists h])"
  "holds pre Q (blob_delete h) = Q (pre @ [BlobDelete h])"
  "holds pre Q (blob_deleteMany hs) = Q (pre @ [BlobDeleteMany hs])"
  by (rule holds_const, rule calls_prims)+

lemma holdsD: "holds [] Q m \<Longrightarrow> Q (new_calls m s)"
  by (simp add: holds_def)

lemma holds_calls: "holds [] Q m \<Longrightarrow> calls (after m s) = calls s @ new_calls m s"
  by (simp add: holds_def after_def)

subsection \<open>The calls of writeFile\<close>

lemmas wf_trace = writeFile_def require_parent_def holds_bind Let_def
  ContentHash_fromContent_def

lemmas wf_splits = option.split node.split

lemma wf_inc_before_dec:
  "holds [] (precedes isIncrement isDecrement) (writeFile mime_lookup now path content)"
  by (simp add: wf_trace split: wf_splits)

lemma wf_dec_has_inc:
  "holds [] (guarded (IncrementBlobRefCount (sha256 content)) isDecrement)
     (writeFile mime_lookup now path content)"
  by (simp add: wf_trace split: wf_splits)

lemma wf_write_first:
  "holds [] (precedes isBlobWrite isMetadataWrite) (writeFile mime_lookup now path content)"
  by (simp add: wf_trace split: wf_splits)

lemma wf_write_hash:
  "holds [] (\<lambda>tr. list_all (\<lambda>c. c = BlobWrite (sha256 content)) (filter isBlobWrite tr))
     (writeFile mime_lookup now path content)"
  by (simp add: wf_trace split: wf_splits)

lemma writeFile_calls_append:
  "calls (after (writeFile mime_lookup now path content) s)
     = calls s @ new_calls (writeFile mime_lookup now path content) s"
  by (rule holds_calls [OF wf_inc_before_dec])

subsection \<open>The first call of the other operations\<close>

lemma holds_seq:
  assumes "holds [] Q m" and "\<And>a. holds [] P (f a)" and "\<And>tr tr'. Q tr \<Longrightarrow> Q (tr @ tr')"
  shows "holds [] Q (bind_io m f)"
  by (rule holds_bind) (use assms in \<open>simp add: holds_def\<close>)

lemma first_call_stays: "take 1 tr = [c] \<Longrightarrow> take 1 (tr @ tr') = [c]"
  by (cases tr) simp_all

lemmas first_call_simps = holds_bind Let_def ContentHash_fromContent_def require_parent_def

lemmas first_call_splits = option.split node.split

lemma first_call_readFile:
  "holds [] (\<lambda>tr. take 1 tr = [GetNodeByPath path]) (readFile path)"
  by (simp add: readFile_def first_call_simps split: first_call_splits)

lemma first_call_deleteFile:
  "holds [] (\<lambda>tr. take 1 tr = [GetNodeByPath path]) (deleteFile now path)"
  by (simp add: deleteFile_def first_call_simps split: first_call_splits)

lemma first_call_deleteDirectory:
  "holds [] (\<lambda>tr. take 1 tr = [GetNodeByPath path]) (deleteDirectory path)"
  by (simp add: deleteDirectory_def first_call_simps split: first_call_splits)

lemma first_call_listDirectory:
  "holds [] (\<lambda>tr. take 1 tr = [GetNodeByPath path]) (listDirectory path)"
  by (simp add: listDirectory_def first_call_simps split: first_call_splits)

lemma first_call_getInfo:
  "holds [] (\<lambda>tr. take 1 tr = [GetNodeByPath path]) (getInfo path)"
  by (simp add: getInfo_def first_call_simps split: first_call_splits)

lemma first_call_copyFile:
  "holds [] (\<lambda>tr. take 1 tr = [GetNodeByPath source]) (copyFile mime_lookup now source destination)"
  unfolding copyFile_def
  by (rule holds_seq [OF first_call_readFile wf_inc_before_dec first_call_stays])

lemma first_call_moveFile:
  "holds [] (\<lambda>tr. take 1 tr = [GetNodeByPath source]) (moveFile mime_lookup now source destination)"
  unfolding moveFile_def
  by (rule holds_seq [OF first_call_copyFile first_call_deleteFile first_call_stays])

section \<open>Facts about the SQL statements\<close>

lemma index_row_size_fits: "(index_row_size p \<le> 2704) = (length p \<le> 2676)"
  by (simp add: index_row_size_def Let_def) arith

lemma INSERT_NODE_absent:
  "rows_at (n_tenant_id row) (n_path row) rows = [] \<Longrightarrow> index_row_size (n_path row) \<le> 2704 \<Longrightarrow>
     INSERT_NODE row rows = Inr (rows @ [row])"
  by (simp add: INSERT_NODE_def rows_at_def list_ex_iff filter_empty_conv)

lemma includes_str_char: "includes_str p [c] = (c \<in> set p)"
  by (induction p) (auto simp: startsWith_def)

lemma text_ok_valid: "FilePath_create p = Inr q \<Longrightarrow> text_ok p"
  by (simp add: FilePath_create_def text_ok_def includes_str_char split: if_splits)

lemma text_ok_parentPath: "text_ok p \<Longrightarrow> text_ok (parentPath p)"
  by (auto simp: text_ok_def parentPath_def substring_def Let_def dest: in_set_takeD in_set_dropD)

lemma node_at_rows: "text_ok p \<Longrightarrow> node_at s t p = first_node (rows_at t p (fs_nodes s))"
  by (simp add: node_at_def GET_NODE_BY_PATH_def)

lemma node_at_InrD:
  "node_at s t p = Inr x \<Longrightarrow> text_ok p \<and> first_node (rows_at t p (fs_nodes s)) = Inr x"
  by (simp add: node_at_def GET_NODE_BY_PATH_def split: if_splits)

lemma first_node_None: "first_node rows = Inr None \<longleftrightarrow> rows = []"
  by (simp add: first_node_def split: list.splits sum.splits)

lemma FilePath_create_Inr: "FilePath_create p = Inr q \<Longrightarrow> q = p"
  by (simp add: FilePath_create_def split: if_splits)

lemma ContentHash_fromString_Inr: "ContentHash_fromString h = Inr k \<Longrightarrow> k = h"
  by (simp add: ContentHash_fromString_def split: if_splits)

lemma row_to_node_FileD:
  assumes "row_to_node row = Inr (FileNode q h sz m c md)"
  shows "n_path row = q \<and> n_type row = ''file'' \<and> n_content_hash row = Some h \<and> n_size row = sz
         \<and> n_mime_type row = m \<and> n_created_at row = c \<and> n_modified_at row = md
         \<and> FilePath_create q = Inr q \<and> ContentHash_fromString h = Inr h"
  using assms
  by (auto simp: row_to_node_def split: sum.splits if_splits option.splits
           dest: FilePath_create_Inr ContentHash_fromString_Inr)

lemma row_to_node_DirD:
  assumes "row_to_node row = Inr (DirectoryNode q c md)"
  shows "n_path row = q \<and> n_type row \<noteq> ''file'' \<and> n_created_at row = c \<and> n_modified_at row = md
         \<and> FilePath_create q = Inr q"
  using assms
  by (auto simp: row_to_node_def split: sum.splits if_splits option.splits
           dest: FilePath_create_Inr)

lemma first_node_SomeD:
  "first_node rows = Inr (Some nd) \<Longrightarrow> \<exists>row rest. rows = row # rest \<and> row_to_node row = Inr nd"
  by (auto simp: first_node_def split: list.splits sum.splits)

lemma GET_hd_at_path:
  assumes "rows_at t p rows = row # rest"
  shows "n_tenant_id row = t \<and> n_path row = p"
proof -
  have "row \<in> set (rows_at t p rows)" using assms by simp
  then show ?thesis by (simp add: rows_at_def at_path_def)
qed

lemma GET_UPDATE_FILE:
  "rows_at t p (UPDATE_FILE_NODE H sz m md t' p' rows)
     = map (\<lambda>r. if at_path t' p' r
                 then r\<lparr>n_content_hash := Some H, n_size := sz, n_mime_type := m, n_modified_at := md\<rparr>
                 else r) (rows_at t p rows)"
  by (induction rows) (simp_all add: rows_at_def UPDATE_FILE_NODE_def at_path_def)

lemma GET_DELETE:
  "rows_at t p (filter (\<lambda>r. \<not> at_path t' p' r) rows)
     = (if t = t' \<and> p = p' then [] else rows_at t p rows)"
  by (induction rows) (auto simp: rows_at_def at_path_def)

lemma GET_append:
  "rows_at t p (rows @ rows') = rows_at t p rows @ rows_at t p rows'"
  by (simp add: rows_at_def)

lemma node_at_after_update:
  assumes "first_node (rows_at t p rows) = Inr (Some (FileNode q h sz m c md))"
    and "ContentHash_fromString H = Inr H"
  shows "first_node (rows_at t p (UPDATE_FILE_NODE H sz' m now t q rows))
           = Inr (Some (FileNode p H sz' m c now))"
proof -
  from first_node_SomeD [OF assms(1)] obtain row rest
    where g: "rows_at t p rows = row # rest"
      and r: "row_to_node row = Inr (FileNode q h sz m c md)" by blast
  from GET_hd_at_path [OF g] have a: "n_tenant_id row = t" "n_path row = p" by simp_all
  from row_to_node_FileD [OF r] a have q: "q = p" and ty: "n_type row = ''file''"
    and cr: "n_created_at row = c" and v: "FilePath_create p = Inr p" by auto
  show ?thesis
    using g a q ty cr v assms(2)
    by (simp add: GET_UPDATE_FILE first_node_def row_to_node_def at_path_def)
qed

lemma node_at_after_insert:
  assumes "rows_at t p rows = []" "FilePath_create p = Inr p"
    "ContentHash_fromString H = Inr H"
  shows "first_node (rows_at t p (rows @ [node_row t (FileNode p H sz m c md)]))
           = Inr (Some (FileNode p H sz m c md))"
  using assms
  by (simp add: GET_append first_node_def row_to_node_def node_row_def rows_at_def at_path_def)

lemma readFile_file:
  assumes "currentTenantId s = Some t" "t \<noteq> []" "text_ok p"
    and "first_node (rows_at t p (fs_nodes s)) = Inr (Some (FileNode q h sz m c md))"
  shows "fst (readFile p s) = (case files s (getFilePath h) of None \<Rightarrow> Inl (FsError ''ENOENT'') | Some B \<Rightarrow> Inr B)"
  using assms
  by (simp add: readFile_def prim_defs split: option.splits)

lemma getFilePath_inj [simp]: "getFilePath h = getFilePath k \<longleftrightarrow> h = k"
  by (auto simp: getFilePath_def)

lemma filter_has_hash_inc_other:
  "h \<noteq> H \<Longrightarrow>
     filter (has_hash h)
       (map (\<lambda>b. if has_hash H b
                  then b\<lparr>b_reference_count := b_reference_count b + 1, b_last_accessed_at := now\<rparr>
                  else b) rows)
     = filter (has_hash h) rows"
  by (induction rows) (simp_all add: has_hash_def)

lemma INCREMENT_present:
  assumes "filter (has_hash H) rows \<noteq> []"
    and "list_all (\<lambda>b. b_reference_count b < 2147483647) (filter (has_hash H) rows)"
  shows "INCREMENT_BLOB_REF now H rows
           = Inr (map (\<lambda>b. if has_hash H b
                            then b\<lparr>b_reference_count := b_reference_count b + 1, b_last_accessed_at := now\<rparr>
                            else b) rows)"
  using assms
  by (auto simp: INCREMENT_BLOB_REF_def list_ex_iff list_all_iff filter_empty_conv)

lemma INCREMENT_absent:
  assumes "filter (has_hash H) rows = []"
  shows "INCREMENT_BLOB_REF now H rows
           = Inr (rows @ [\<lparr>b_content_hash = H, b_reference_count = 1, b_size = 0,
                            b_created_at = now, b_last_accessed_at = now\<rparr>])"
  using assms
  by (auto simp: INCREMENT_BLOB_REF_def list_ex_iff filter_empty_conv)

lemma DECREMENT_after_INCREMENT_same:
  assumes "list_all (\<lambda>b. 1 \<le> b_reference_count b) (filter (has_hash H) rows)"
  shows "DECREMENT_BLOB_REF now H
           (map (\<lambda>b. if has_hash H b
                      then b\<lparr>b_reference_count := b_reference_count b + 1, b_last_accessed_at := now\<rparr>
                      else b) rows)
         = Inr (map b_reference_count (filter (has_hash H) rows), touch_blob now H rows)"
proof -
  let ?inc = "\<lambda>b. if has_hash H b
                   then b\<lparr>b_reference_count := b_reference_count b + 1, b_last_accessed_at := now\<rparr>
                   else b"
  have ok: "\<And>b. b \<in> set rows \<Longrightarrow> has_hash H b \<Longrightarrow> 1 \<le> b_reference_count b"
    using assms by (simp add: list_all_iff)
  have chk: "\<not> list_ex (\<lambda>b. has_hash H b \<and> b_reference_count b - 1 < 0) (map ?inc rows)"
  proof
    assume "list_ex (\<lambda>b. has_hash H b \<and> b_reference_count b - 1 < 0) (map ?inc rows)"
    then obtain b where "b \<in> set rows" "has_hash H (?inc b)" "b_reference_count (?inc b) - 1 < 0"
      by (auto simp: list_ex_iff)
    then show False using ok [of b] by (cases "has_hash H b") (simp_all add: has_hash_def)
  qed
  have ret: "map (\<lambda>b. b_reference_count b - 1) (filter (has_hash H) (map ?inc rows))
             = map b_reference_count (filter (has_hash H) rows)"
    by (induction rows) (simp_all add: has_hash_def)
  have upd: "map (\<lambda>b. if has_hash H b
                        then b\<lparr>b_reference_count := b_reference_count b - 1, b_last_accessed_at := now\<rparr>
                        else b) (map ?inc rows)
             = touch_blob now H rows"
    by (induction rows) (simp_all add: touch_blob_def has_hash_def)
  show ?thesis
    unfolding DECREMENT_BLOB_REF_def using chk ret upd by simp
qed

lemma refcounts_touch_blob: "map b_reference_count (filter (has_hash h) (touch_blob now H rows))
    = map b_reference_count (filter (has_hash h) rows)"
  by (induction rows) (auto simp: touch_blob_def has_hash_def)

lemma DECREMENT_succeeds:
  assumes "list_all (\<lambda>b. 1 \<le> b_reference_count b) (filter (has_hash h) rows)"
  shows "\<exists>ret bl. DECREMENT_BLOB_REF now h rows = Inr (ret, bl)"
  using assms by (auto simp: DECREMENT_BLOB_REF_def list_ex_iff list_all_iff)

lemma INCREMENT_cases:
  assumes "list_all (\<lambda>b. b_reference_count b < 2147483647) (filter (has_hash H) rows)"
  shows "(filter (has_hash H) rows = []
            \<and> INCREMENT_BLOB_REF now H rows
                = Inr (rows @ [\<lparr>b_content_hash = H, b_reference_count = 1, b_size = 0,
                                 b_created_at = now, b_last_accessed_at = now\<rparr>]))
       \<or> (filter (has_hash H) rows \<noteq> []
            \<and> INCREMENT_BLOB_REF now H rows
                = Inr (map (\<lambda>b. if has_hash H b
                            then b\<lparr>b_reference_count := b_reference_count b + 1, b_last_accessed_at := now\<rparr>
                            else b) rows))"
  using INCREMENT_absent [of H rows now] INCREMENT_present [OF _ assms, of now]
  by blast

lemma has_hash_new_row:
  "has_hash h \<lparr>b_content_hash = k, b_reference_count = n, b_size = z,
               b_created_at = c, b_last_accessed_at = a\<rparr> = (k = h)"
  by (simp add: has_hash_def)

lemma INCREMENT_other_rows:
  assumes "INCREMENT_BLOB_REF now H rows = Inr bl" "h \<noteq> H"
  shows "filter (has_hash h) bl = filter (has_hash h) rows"
  using assms
  by (auto simp: INCREMENT_BLOB_REF_def filter_has_hash_inc_other has_hash_new_row
           split: if_splits)

lemma node_at_File_facts:
  assumes "node_at s t p = Inr (Some (FileNode q h sz m c md))"
  shows "q = p" and "FilePath_create p = Inr p" and "ContentHash_fromString h = Inr h"
proof -
  from node_at_InrD [OF assms] first_node_SomeD obtain row rest
    where g: "rows_at t p (fs_nodes s) = row # rest"
      and r: "row_to_node row = Inr (FileNode q h sz m c md)"
    by blast
  from GET_hd_at_path [OF g] row_to_node_FileD [OF r]
  show "q = p" and "FilePath_create p = Inr p" and "ContentHash_fromString h = Inr h" by auto
qed

lemma refcounts_after_increment:
  "map b_reference_count (filter (has_hash H)
     (map (\<lambda>b. if has_hash H b
                then b\<lparr>b_reference_count := b_reference_count b + 1, b_last_accessed_at := now\<rparr>
                else b) rows))
   = map (\<lambda>n. n + 1) (map b_reference_count (filter (has_hash H) rows))"
  by (induction rows) (auto simp: has_hash_def)

subsection \<open>The children query\<close>

lemma like_match_percent: "like_match ''%'' p"
  by (induction p) simp_all

lemma like_match_literal_prefix:
  "like_literal lit \<Longrightarrow> like_match (lit @ ''%'') p = startsWith p lit"
proof (induction lit arbitrary: p)
  case Nil
  then show ?case by (simp add: like_match_percent startsWith_def)
next
  case (Cons c lit)
  then have l: "like_literal lit" and c: "c \<noteq> CHR ''%''" "c \<noteq> CHR ''_''" "c \<noteq> CHR 0x5C"
    by (auto simp: like_literal_def)
  show ?case
  proof (cases p)
    case Nil
    then show ?thesis using c by (simp add: startsWith_def)
  next
    case (Cons x xs)
    then show ?thesis using c Cons.IH [OF l, of xs] by (auto simp: startsWith_def)
  qed
qed

lemma sql_slash_count_match_count: "sql_slash_count p = match_count p"
proof -
  have "length p = length (filter (\<lambda>c. c = CHR ''/'') p) + length (filter (\<lambda>c. c \<noteq> CHR ''/'') p)"
    by (induction p) simp_all
  then show ?thesis by (simp add: sql_slash_count_def match_count_def)
qed

lemma match_count_append: "match_count (a @ b) = match_count a + match_count b"
  by (simp add: match_count_def)

lemma match_count_zero: "(match_count x = 0) = (CHR ''/'' \<notin> set x)"
  by (auto simp: match_count_def filter_empty_conv)

lemma children_pattern_prefix: "children_pattern d = child_prefix d @ ''%''"
  by (simp add: children_pattern_def child_prefix_def)

lemma like_literal_child_prefix: "like_literal d \<Longrightarrow> like_literal (child_prefix d)"
  by (simp add: like_literal_def child_prefix_def)

lemma match_count_child_prefix: "match_count (child_prefix d) = children_depth d"
  by (simp add: child_prefix_def children_depth_def match_count_def)

lemma child_condition:
  assumes "like_literal d"
  shows "(like_match (children_pattern d) p \<and> p \<noteq> d \<and> sql_slash_count p = children_depth d)
         = is_child d p"
proof (cases "startsWith p (child_prefix d)")
  case True
  then have p: "p = child_prefix d @ drop (length (child_prefix d)) p"
    by (metis append_take_drop_id startsWith_def)
  have "match_count p = children_depth d + match_count (drop (length (child_prefix d)) p)"
    by (subst p) (simp add: match_count_append match_count_child_prefix)
  then show ?thesis
    using True like_match_literal_prefix [OF like_literal_child_prefix [OF assms], of p]
      match_count_zero [of "drop (length (child_prefix d)) p"]
    by (auto simp: is_child_def children_pattern_prefix sql_slash_count_match_count)
next
  case False
  then show ?thesis
    using like_match_literal_prefix [OF like_literal_child_prefix [OF assms], of p]
    by (simp add: is_child_def children_pattern_prefix)
qed

lemma text_ok_children_pattern: "text_ok d \<Longrightarrow> text_ok (children_pattern d)"
  by (simp add: text_ok_def children_pattern_def)

lemma LIST_CHILDREN_child_rows:
  "like_literal d \<Longrightarrow> text_ok d \<Longrightarrow>
   LIST_CHILDREN le t (children_pattern d) d (children_depth d) (fs_nodes s)
     = Inr (order_rows le (child_rows s t d))"
  by (simp add: LIST_CHILDREN_def child_rows_def child_condition text_ok_children_pattern
        cong: conj_cong)

lemma linear_orderD:
  assumes "linear_order le"
  shows "le a b \<or> le b a" and "le a b \<Longrightarrow> le b c \<Longrightarrow> le a c" and "le a b \<Longrightarrow> le b a \<Longrightarrow> a = b"
  using assms unfolding linear_order_def by blast+

lemma row_le_total:
  assumes "linear_order le" "\<not> row_le le a b"
  shows "row_le le b a"
  using assms(2) linear_orderD(1) [OF assms(1), of "n_type a" "n_type b"]
    linear_orderD(1) [OF assms(1), of "n_path a" "n_path b"]
  unfolding row_le_def by auto

lemma row_le_trans:
  assumes "linear_order le" "row_le le a b" "row_le le b c"
  shows "row_le le a c"
proof -
  note tr = linear_orderD(2) [OF assms(1)] and as = linear_orderD(3) [OF assms(1)]
  from assms(2,3) consider
      (tt) "le (n_type b) (n_type a)" "n_type a \<noteq> n_type b"
           "le (n_type c) (n_type b)" "n_type b \<noteq> n_type c"
    | (tp) "le (n_type b) (n_type a)" "n_type a \<noteq> n_type b"
           "n_type b = n_type c"
    | (pt) "n_type a = n_type b" "le (n_type c) (n_type b)" "n_type b \<noteq> n_type c"
    | (pp) "n_type a = n_type b" "le (n_path a) (n_path b)"
           "n_type b = n_type c" "le (n_path b) (n_path c)"
    unfolding row_le_def by blast
  then show ?thesis
  proof cases
    case tt
    from tr [OF tt(3) tt(1)] have 1: "le (n_type c) (n_type a)" .
    have "n_type a \<noteq> n_type c"
    proof
      assume e: "n_type a = n_type c"
      with tt(1) have "le (n_type b) (n_type c)" by simp
      from as [OF this tt(3)] tt(4) show False by simp
    qed
    with 1 show ?thesis by (simp add: row_le_def)
  next
    case tp
    then show ?thesis by (simp add: row_le_def)
  next
    case pt
    then show ?thesis by (simp add: row_le_def)
  next
    case pp
    from tr [OF pp(2) pp(4)] pp(1,3) show ?thesis by (simp add: row_le_def)
  qed
qed

lemma set_insert_row: "set (insert_row le r xs) = insert r (set xs)"
  by (induction xs) auto

lemma length_insert_row: "length (insert_row le r xs) = Suc (length xs)"
  by (induction xs) auto

lemma sorted_insert_row:
  assumes "linear_order le"
  shows "sorted_wrt (row_le le) xs \<Longrightarrow> sorted_wrt (row_le le) (insert_row le r xs)"
proof (induction xs)
  case Nil
  then show ?case by simp
next
  case (Cons x xs)
  show ?case
  proof (cases "row_le le r x")
    case True
    with Cons.prems row_le_trans [OF assms True] show ?thesis by auto
  next
    case False
    from row_le_total [OF assms False] False Cons show ?thesis
      by (auto simp: set_insert_row)
  qed
qed

lemma set_order_rows: "set (order_rows le rows) = set rows"
  by (induction rows) (simp_all add: order_rows_def set_insert_row)

lemma length_order_rows: "length (order_rows le rows) = length rows"
  by (induction rows) (simp_all add: order_rows_def length_insert_row)

lemma sorted_order_rows: "linear_order le \<Longrightarrow> sorted_wrt (row_le le) (order_rows le rows)"
  by (induction rows) (simp_all add: order_rows_def sorted_insert_row)

lemma linear_order_bytes: "linear_order (\<lambda>a b. a \<le> b)"
  unfolding linear_order_def by auto

lemma rows_to_nodes_all2:
  "rows_to_nodes rs = Inr ns \<Longrightarrow> list_all2 (\<lambda>r n. row_to_node r = Inr n) rs ns"
  by (induction rs arbitrary: ns) (auto split: sum.splits)

lemma list_all2_source:
  "list_all2 R rs ns \<Longrightarrow> n \<in> set ns \<Longrightarrow> \<exists>r\<in>set rs. R r n"
  by (induction rs ns rule: list_all2_induct) auto

lemma rows_to_nodes_total:
  "\<forall>r\<in>set rs. \<exists>n. row_to_node r = Inr n \<Longrightarrow> \<exists>ns. rows_to_nodes rs = Inr ns"
  by (induction rs) auto

lemma row_to_node_path: "row_to_node r = Inr n \<Longrightarrow> getPath n = n_path r"
  by (auto simp: row_to_node_def FilePath_create_def split: sum.splits if_splits option.splits)

lemma row_to_node_isFile: "row_to_node r = Inr n \<Longrightarrow> isFile n = (n_type r = ''file'')"
  by (auto simp: row_to_node_def split: sum.splits if_splits option.splits)

lemma row_le_node_le:
  assumes "linear_order le" "le ''directory'' ''file''"
    and "row_le le r1 r2" "row_to_node r1 = Inr n1" "row_to_node r2 = Inr n2"
    and "n_type r1 = ''file'' \<or> n_type r1 = ''directory''"
    and "n_type r2 = ''file'' \<or> n_type r2 = ''directory''"
  shows "node_le le n1 n2"
proof -
  have ne: "''directory'' \<noteq> ''file''" by simp
  have "\<not> le ''file'' ''directory''"
    using linear_orderD(3) [OF assms(1,2)] ne by blast
  then show ?thesis
    using assms(3,6,7) row_to_node_path [OF assms(4)] row_to_node_path [OF assms(5)]
      row_to_node_isFile [OF assms(4)] row_to_node_isFile [OF assms(5)]
    by (auto simp: row_le_def node_le_def)
qed

lemma sorted_nodes:
  assumes "list_all2 (\<lambda>r n. row_to_node r = Inr n) rs ns" "sorted_wrt (row_le le) rs"
    and "\<forall>r\<in>set rs. n_type r = ''file'' \<or> n_type r = ''directory''"
    and "linear_order le" "le ''directory'' ''file''"
  shows "sorted_wrt (node_le le) ns"
  using assms(1,2,3)
proof (induction rs ns rule: list_all2_induct)
  case Nil
  then show ?case by simp
next
  case (Cons r rs n ns)
  have "node_le le n n'" if "n' \<in> set ns" for n'
  proof -
    from list_all2_source [OF Cons.hyps(2) that] obtain r'
      where r': "r' \<in> set rs" "row_to_node r' = Inr n'" by blast
    with Cons.prems have "row_le le r r'" by simp
    with r' Cons.hyps(1) Cons.prems(2) show ?thesis
      by (auto intro: row_le_node_le [OF assms(4,5)])
  qed
  with Cons show ?case by simp
qed

lemma set_nodes:
  assumes "list_all2 (\<lambda>r n. row_to_node r = Inr n) rs ns"
  shows "set ns = {n. \<exists>r\<in>set rs. row_to_node r = Inr n}"
  using assms by (induction rs ns rule: list_all2_induct) auto

lemma lastIndexOf_none: "c \<notin> set x \<Longrightarrow> lastIndexOf x c = - 1"
  by (induction x) (auto simp: Let_def)

lemma lastIndexOf_last:
  "c \<notin> set x \<Longrightarrow> lastIndexOf (pre @ c # x) c = int (length pre)"
  by (induction pre) (simp_all add: Let_def lastIndexOf_none)

lemma substring_prefix: "substring (pre @ x) 0 (int (length pre)) = pre"
  by (simp add: substring_def Let_def)

lemma is_child_parentPath:
  assumes "is_child d p" "d \<noteq> []"
  shows "parentPath p = d"
proof -
  from assms(1) have p: "p = child_prefix d @ drop (length (child_prefix d)) p"
    and x: "CHR ''/'' \<notin> set (drop (length (child_prefix d)) p)"
    by (auto simp: is_child_def startsWith_def) (metis append_take_drop_id)
  define x where "x = drop (length (child_prefix d)) p"
  show ?thesis
  proof (cases "d = ''/''")
    case True
    with p x have "p = [] @ CHR ''/'' # x" "CHR ''/'' \<notin> set x"
      by (simp_all add: child_prefix_def x_def)
    from lastIndexOf_last [OF this(2), of "[]"] this(1) True show ?thesis
      by (simp add: parentPath_def substring_def Let_def)
  next
    case False
    with p x have q: "p = d @ CHR ''/'' # x" "CHR ''/'' \<notin> set x"
      by (simp_all add: child_prefix_def x_def)
    from lastIndexOf_last [OF q(2), of d] q(1) substring_prefix [of d "CHR ''/'' # x"] assms(2)
    show ?thesis by (simp add: parentPath_def Let_def)
  qed
qed

lemma listChildren_result:
  assumes "currentTenantId s = Some t" "t \<noteq> []"
  shows "result (listChildren d) s = children_of s t d"
  using assms by (simp add: listChildren_def children_of_def prim_defs result_def split: sum.splits)

section \<open>The branches of writeFile\<close>

lemma writeFile_new:
  assumes "currentTenantId s = Some t" "t \<noteq> []" "FilePath_create p = Inr p"
    and "rows_at t p (fs_nodes s) = []" "index_row_size p \<le> 2704"
    and "first_node (rows_at t (parentPath p) (fs_nodes s)) = Inr (Some par)"
    and "INCREMENT_BLOB_REF now (sha256 B) (blobs s) = Inr bl"
  shows "fst (writeFile mime now p B s) = Inr ()"
    and "fs_nodes (snd (writeFile mime now p B s))
           = fs_nodes s @ [node_row t (new_FileNode now p (sha256 B) (length B) (mimeType_of mime p))]"
    and "blobs (snd (writeFile mime now p B s)) = bl"
    and "files (snd (writeFile mime now p B s)) = files_after_write s B"
    and "currentTenantId (snd (writeFile mime now p B s)) = Some t"
  using assms text_ok_valid [OF assms(3)] text_ok_parentPath [OF text_ok_valid [OF assms(3)]]
  by (simp_all add: writeFile_def require_parent_def prim_defs Let_def ContentHash_fromContent_def
        first_node_def INSERT_NODE_absent node_row_def new_FileNode_def files_after_write_def)

lemma writeFile_new_calls:
  assumes "currentTenantId s = Some t" "t \<noteq> []" "FilePath_create p = Inr p"
    and "rows_at t p (fs_nodes s) = []" "index_row_size p \<le> 2704"
    and "first_node (rows_at t (parentPath p) (fs_nodes s)) = Inr (Some par)"
    and "INCREMENT_BLOB_REF now (sha256 B) (blobs s) = Inr bl"
  shows "new_calls (writeFile mime now p B) s
           = BlobExists (sha256 B)
             # (if files s (getFilePath (sha256 B)) = None then [BlobWrite (sha256 B)] else [])
             @ [GetNodeByPath p, GetNodeByPath (parentPath p), CreateNode p,
                IncrementBlobRefCount (sha256 B)]"
  using assms text_ok_valid [OF assms(3)] text_ok_parentPath [OF text_ok_valid [OF assms(3)]]
  by (simp add: new_calls_def writeFile_def require_parent_def prim_defs Let_def
        ContentHash_fromContent_def first_node_def INSERT_NODE_absent node_row_def new_FileNode_def)

lemma writeFile_update:
  assumes "currentTenantId s = Some t" "t \<noteq> []" "FilePath_create p = Inr p"
    and "first_node (rows_at t p (fs_nodes s)) = Inr (Some (FileNode q h sz m c md))"
    and "INCREMENT_BLOB_REF now (sha256 B) (blobs s) = Inr bl1"
    and "DECREMENT_BLOB_REF now h bl1 = Inr (ret, bl2)"
  shows "fst (writeFile mime now p B s) = Inr ()"
    and "fs_nodes (snd (writeFile mime now p B s))
           = UPDATE_FILE_NODE (sha256 B) (Some (length B)) m now t q (fs_nodes s)"
    and "blobs (snd (writeFile mime now p B s)) = bl2"
    and "files (snd (writeFile mime now p B s))
           = (if ret = [] \<or> hd ret = 0 then (files_after_write s B)(getFilePath h := None)
              else files_after_write s B)"
    and "currentTenantId (snd (writeFile mime now p B s)) = Some t"
  using assms text_ok_valid [OF assms(3)]
  by (simp_all add: writeFile_def prim_defs Let_def ContentHash_fromContent_def unlink_def
        files_after_write_def split: list.splits)

lemma writeFile_update_calls:
  assumes "currentTenantId s = Some t" "t \<noteq> []" "FilePath_create p = Inr p"
    and "first_node (rows_at t p (fs_nodes s)) = Inr (Some (FileNode q h sz m c md))"
    and "INCREMENT_BLOB_REF now (sha256 B) (blobs s) = Inr bl1"
    and "DECREMENT_BLOB_REF now h bl1 = Inr (ret, bl2)"
  shows "new_calls (writeFile mime now p B) s
           = BlobExists (sha256 B)
             # (if files s (getFilePath (sha256 B)) = None then [BlobWrite (sha256 B)] else [])
             @ [GetNodeByPath p, UpdateNode q, IncrementBlobRefCount (sha256 B), DecrementBlobRefCount h]
             @ (if ret = [] \<or> hd ret = 0 then [BlobDelete h] else [])"
  using assms text_ok_valid [OF assms(3)]
  by (simp add: new_calls_def writeFile_def prim_defs Let_def ContentHash_fromContent_def
        split: list.splits)

lemma files_after_write_at:
  assumes "files s (getFilePath (sha256 B)) = None \<or> files s (getFilePath (sha256 B)) = Some B"
  shows "files_after_write s B (getFilePath (sha256 B)) = Some B"
  using assms by (auto simp: files_after_write_def)

section \<open>Reading, overwriting and deleting\<close>

lemma readFile_ok:
  assumes "currentTenantId s = Some t" "t \<noteq> []"
    and "node_at s t p = Inr (Some (FileNode q h sz m c md))"
    and "blob_at s h = Some B"
  shows "readFile p s = (Inr B, s\<lparr>calls := calls s @ [GetNodeByPath p, BlobRead h]\<rparr>)"
  using assms node_at_InrD [OF assms(3)]
  by (simp add: readFile_def prim_defs blob_at_def)

lemma writeFile_on_directory:
  assumes "currentTenantId s = Some t" "t \<noteq> []"
    and "node_at s t p = Inr (Some (DirectoryNode q c md))"
  shows "fst (writeFile mime now p B s) = Inl (FileAlreadyExistsError (''Path is a directory: '' @ p))"
    and "fs_nodes (snd (writeFile mime now p B s)) = fs_nodes s"
    and "blobs (snd (writeFile mime now p B s)) = blobs s"
proof -
  from node_at_InrD [OF assms(3)] first_node_SomeD obtain row rest
    where g: "rows_at t p (fs_nodes s) = row # rest"
      and r: "row_to_node row = Inr (DirectoryNode q c md)"
    by blast
  from GET_hd_at_path [OF g] row_to_node_DirD [OF r] have v: "FilePath_create p = Inr p" by auto
  show "fst (writeFile mime now p B s) = Inl (FileAlreadyExistsError (''Path is a directory: '' @ p))"
    and "fs_nodes (snd (writeFile mime now p B s)) = fs_nodes s"
    and "blobs (snd (writeFile mime now p B s)) = blobs s"
    using assms v node_at_InrD [OF assms(3)]
    by (simp_all add: writeFile_def prim_defs Let_def)
qed

lemma writeFile_over_file:
  assumes tenant: "currentTenantId s = Some t" "t \<noteq> []"
    and n: "node_at s t p = Inr (Some (FileNode q h sz m c md))"
    and ne: "blob_rows s h \<noteq> []"
    and ge: "list_all (\<lambda>b. 1 \<le> b_reference_count b) (blob_rows s h)"
    and room: "list_all (\<lambda>b. b_reference_count b < 2147483647) (blob_rows s (sha256 B))"
  shows "fst (writeFile mime now p B s) = Inr ()"
    and "currentTenantId (snd (writeFile mime now p B s)) = Some t"
    and "node_at (snd (writeFile mime now p B s)) t p
           = Inr (Some (FileNode p (sha256 B) (Some (length B)) m c now))"
    and "fs_nodes (snd (writeFile mime now p B s))
           = UPDATE_FILE_NODE (sha256 B) (Some (length B)) m now t p (fs_nodes s)"
proof -
  let ?H = "sha256 B"
  let ?s' = "snd (writeFile mime now p B s)"
  have room': "list_all (\<lambda>b. b_reference_count b < 2147483647) (filter (has_hash ?H) (blobs s))"
    using room by (simp add: blob_rows_def)
  from INCREMENT_cases [OF room', of now] obtain bl1
    where i: "INCREMENT_BLOB_REF now ?H (blobs s) = Inr bl1" by blast
  from node_at_File_facts [OF n] have q: "q = p" and valid: "FilePath_create p = Inr p" by simp_all
  have n': "first_node (rows_at t p (fs_nodes s)) = Inr (Some (FileNode q h sz m c md))"
    using node_at_InrD [OF n] by simp
  have "\<exists>ret bl2. DECREMENT_BLOB_REF now h bl1 = Inr (ret, bl2)"
  proof (cases "h = ?H")
    case True
    have ne': "filter (has_hash ?H) (blobs s) \<noteq> []" using ne True by (simp add: blob_rows_def)
    have ge': "list_all (\<lambda>b. 1 \<le> b_reference_count b) (filter (has_hash ?H) (blobs s))"
      using ge True by (simp add: blob_rows_def)
    from INCREMENT_present [OF ne' room', of now] i
    have bl1: "bl1 = map (\<lambda>b. if has_hash ?H b
              then b\<lparr>b_reference_count := b_reference_count b + 1, b_last_accessed_at := now\<rparr>
              else b) (blobs s)" by simp
    with DECREMENT_after_INCREMENT_same [OF ge', of now] True show ?thesis by simp
  next
    case False
    from INCREMENT_other_rows [OF i False] ge
    have "list_all (\<lambda>b. 1 \<le> b_reference_count b) (filter (has_hash h) bl1)"
      by (simp add: blob_rows_def)
    from DECREMENT_succeeds [OF this, of now] show ?thesis .
  qed
  then obtain ret bl2 where d: "DECREMENT_BLOB_REF now h bl1 = Inr (ret, bl2)" by blast
  note u = writeFile_update [OF tenant valid n' i d, of mime]
  have "first_node (rows_at t p (fs_nodes ?s'))
          = Inr (Some (FileNode p ?H (Some (length B)) m c now))"
    unfolding u(2) by (rule node_at_after_update [OF n']) simp
  with u q show "fst (writeFile mime now p B s) = Inr ()"
    and "currentTenantId ?s' = Some t"
    and "node_at ?s' t p = Inr (Some (FileNode p ?H (Some (length B)) m c now))"
    and "fs_nodes ?s' = UPDATE_FILE_NODE ?H (Some (length B)) m now t p (fs_nodes s)"
    by (simp_all add: node_at_rows [OF text_ok_valid [OF valid]])
qed

lemma deleteFile_rows:
  assumes "currentTenantId s = Some t" "t \<noteq> []"
  shows "fs_nodes (snd (deleteFile now p s)) = fs_nodes s
       \<or> fs_nodes (snd (deleteFile now p s)) = filter (\<lambda>r. \<not> at_path t p r) (fs_nodes s)"
  using assms
  by (simp add: deleteFile_def prim_defs unlink_def
        split: option.splits sum.splits node.splits list.splits prod.splits if_splits)

lemma FilePath_create_rejects:
  assumes "path = [] \<or> \<not> startsWith path ''/'' \<or> includes_str path ''..''
           \<or> includes_str path [CHR 0x00]"
  shows "\<exists>msg. FilePath_create path = Inl (Error msg)"
  using assms by (auto simp: FilePath_create_def startsWith_def)

lemma rejected_before_any_call:
  assumes "FilePath_create path = Inl e"
  shows "createDirectory now path s = (Inl e, s)"
    and "writeFile mime_lookup now path content s = (Inl e, s)"
  using assms
  by (simp_all add: createDirectory_def writeFile_def bind_io_def lift_io_def)

lemma absent_parent_refused:
  assumes "currentTenantId s = Some t" "t \<noteq> []" "FilePath_create p = Inr p"
    and "node_at s t p = Inr None" "p \<noteq> ''/''" "node_at s t (parentPath p) = Inr None"
  shows "result (createDirectory now p) s
           = Inl (DirectoryNotFoundError (''Parent directory not found: '' @ parentPath p))"
    and "fs_nodes (after (createDirectory now p) s) = fs_nodes s"
    and "result (writeFile mime_lookup now p B) s
           = Inl (DirectoryNotFoundError (''Parent directory not found: '' @ parentPath p))"
    and "fs_nodes (after (writeFile mime_lookup now p B) s) = fs_nodes s"
  using assms node_at_InrD [OF assms(4)] node_at_InrD [OF assms(6)]
  by (simp_all add: createDirectory_def writeFile_def require_parent_def prim_defs Let_def
        first_node_None first_node_def result_def after_def)

lemma deleteDirectory_result:
  assumes "currentTenantId s = Some t" "t \<noteq> []"
  shows "result (deleteDirectory path) s
       = (case node_at s t path of
            Inl e \<Rightarrow> Inl e
          | Inr None \<Rightarrow> Inl (DirectoryNotFoundError (''Directory not found: '' @ path))
          | Inr (Some (FileNode q h sz m c md)) \<Rightarrow>
              Inl (DirectoryNotFoundError (''Path is a file: '' @ path))
          | Inr (Some (DirectoryNode q c md)) \<Rightarrow>
              (case children_of s t path of
                 Inl e \<Rightarrow> Inl e
               | Inr [] \<Rightarrow> Inr ()
               | Inr (child # rest) \<Rightarrow>
                   Inl (DirectoryNotEmptyError (''Directory not empty: '' @ path))))"
  using assms
  by (simp add: deleteDirectory_def prim_defs node_at_def children_of_def result_def
        split: sum.split option.split node.split list.split)

lemma deleteDirectory_rows:
  assumes "currentTenantId s = Some t" "t \<noteq> []"
  shows "fs_nodes (after (deleteDirectory path) s)
       = (if fst (deleteDirectory path s) = Inr ()
          then filter (\<lambda>r. \<not> at_path t path r) (fs_nodes s)
          else fs_nodes s)"
  using assms
  by (simp add: deleteDirectory_def prim_defs after_def
        split: sum.split option.split node.split list.split)

section \<open>The sample stores\<close>

lemma root_store_simps:
  "currentTenantId root_store = Some tenant1"
  "fs_nodes root_store =
     [\<lparr>n_tenant_id = tenant1, n_path = ''/'', n_type = ''directory'', n_content_hash = None,
       n_size = None, n_mime_type = None, n_created_at = 1, n_modified_at = 1\<rparr>]"
  "blobs root_store = []"
  "files root_store = Map.empty"
  unfolding root_store_def
  by (simp_all add: eval_defs sample_defs)

lemma hello_store_simps:
  "currentTenantId hello_store = Some tenant1"
  "fs_nodes hello_store =
     [\<lparr>n_tenant_id = tenant1, n_path = ''/'', n_type = ''directory'', n_content_hash = None,
       n_size = None, n_mime_type = None, n_created_at = 1, n_modified_at = 1\<rparr>,
      \<lparr>n_tenant_id = tenant1, n_path = ''/hello.txt'', n_type = ''file'',
       n_content_hash = Some (sha256 hello), n_size = Some 11, n_mime_type = Some ''text/plain'',
       n_created_at = 2, n_modified_at = 2\<rparr>]"
  "blobs hello_store =
     [\<lparr>b_content_hash = sha256 hello, b_reference_count = 1, b_size = 0,
       b_created_at = 2, b_last_accessed_at = 2\<rparr>]"
  "files hello_store = [getFilePath (sha256 hello) \<mapsto> hello]"
  unfolding hello_store_def root_store_def
  by (simp_all add: eval_defs sample_defs hello_def)

lemma docs_store_simps:
  "currentTenantId docs_store = Some tenant1"
  "fs_nodes docs_store =
     [\<lparr>n_tenant_id = tenant1, n_path = ''/'', n_type = ''directory'', n_content_hash = None,
       n_size = None, n_mime_type = None, n_created_at = 1, n_modified_at = 1\<rparr>,
      \<lparr>n_tenant_id = tenant1, n_path = ''/docs'', n_type = ''directory'', n_content_hash = None,
       n_size = None, n_mime_type = None, n_created_at = 2, n_modified_at = 2\<rparr>]"
  "blobs docs_store = []"
  "files docs_store = Map.empty"
  unfolding docs_store_def root_store_def
  by (simp_all add: eval_defs sample_defs)

lemmas lookup_defs = node_at_def blob_rows_def blob_at_def refcounts_def GET_NODE_BY_PATH_def rows_at_def
  text_ok_def
  at_path_def has_hash_def first_node_def row_to_node_def FilePath_create_def startsWith_def
  parentPath_def substring_def

lemma length_hello [simp]: "length hello = 11"
  by (simp add: hello_def)

lemma hello_store_calls:
  "calls hello_store =
     [GetNodeByPath ''/'', CreateNode ''/'', BlobExists (sha256 hello), BlobWrite (sha256 hello),
      GetNodeByPath ''/hello.txt'', GetNodeByPath ''/'', CreateNode ''/hello.txt'',
      IncrementBlobRefCount (sha256 hello)]"
  unfolding hello_store_def root_store_def
  by (simp add: eval_defs sample_defs)

lemma tree_store_simps:
  "currentTenantId tree_store = Some tenant1"
  "collation tree_store = (\<lambda>a b. a \<le> b)"
  "fs_nodes tree_store =
     [\<lparr>n_tenant_id = tenant1, n_path = ''/'', n_type = ''directory'', n_content_hash = None,
       n_size = None, n_mime_type = None, n_created_at = 1, n_modified_at = 1\<rparr>,
      \<lparr>n_tenant_id = tenant1, n_path = ''/docs'', n_type = ''directory'', n_content_hash = None,
       n_size = None, n_mime_type = None, n_created_at = 2, n_modified_at = 2\<rparr>,
      \<lparr>n_tenant_id = tenant1, n_path = ''/hello.txt'', n_type = ''file'',
       n_content_hash = Some (sha256 hello), n_size = Some 11, n_mime_type = Some ''text/plain'',
       n_created_at = 3, n_modified_at = 3\<rparr>,
      \<lparr>n_tenant_id = tenant1, n_path = ''/empty.txt'', n_type = ''file'',
       n_content_hash = Some (sha256 []), n_size = Some 0, n_mime_type = Some ''text/plain'',
       n_created_at = 4, n_modified_at = 4\<rparr>]"
  "blobs tree_store =
     [\<lparr>b_content_hash = sha256 hello, b_reference_count = 1, b_size = 0,
       b_created_at = 3, b_last_accessed_at = 3\<rparr>,
      \<lparr>b_content_hash = sha256 [], b_reference_count = 1, b_size = 0,
       b_created_at = 4, b_last_accessed_at = 4\<rparr>]"
  "files tree_store = [getFilePath (sha256 hello) \<mapsto> hello, getFilePath (sha256 []) \<mapsto> []]"
  unfolding tree_store_def root_store_def
  by (simp_all add: eval_defs sample_defs)

section \<open>Round trip of a write and a read\<close>

text \<open>
  C1, as the code has it. Let \<open>p\<close> be a valid path whose parent directory exists, at which
  there is either no node, \<open>p\<close> being short enough for its index entry (at most 2676
  bytes), or a file whose blob row has a reference count of at least 1 (a directory at
  \<open>p\<close> makes the write fail, and so does a new path whose index entry is too large), in a
  store that holds under the digest of \<open>B\<close> nothing or \<open>B\<close> itself and counts fewer than
  2147483647 references to it. Then \<^verbatim>\<open>writeFile(p, B)\<close> succeeds, \<^verbatim>\<open>readFile(p)\<close> then
  returns \<open>B\<close>, and the node stored at \<open>p\<close> is a file node whose hash is the SHA-256
  digest of \<open>B\<close>.
\<close>

theorem write_then_read:
  assumes tenant: "currentTenantId s = Some t" "t \<noteq> []"
    and valid: "FilePath_create p = Inr p"
    and parent: "node_at s t (parentPath p) = Inr (Some (DirectoryNode pp pc pm))"
    and target: "(node_at s t p = Inr None \<and> index_row_size p \<le> 2704)
                 \<or> (\<exists>q h sz m c md. node_at s t p = Inr (Some (FileNode q h sz m c md))
                        \<and> blob_rows s h \<noteq> []
                        \<and> list_all (\<lambda>b. 1 \<le> b_reference_count b) (blob_rows s h))"
    and blob: "blob_at s (sha256 B) = None \<or> blob_at s (sha256 B) = Some B"
    and room: "list_all (\<lambda>b. b_reference_count b < 2147483647) (blob_rows s (sha256 B))"
  shows "result (writeFile mime_lookup now p B) s = Inr ()
       \<and> result (readFile p) (after (writeFile mime_lookup now p B) s) = Inr B
       \<and> (\<exists>sz m c. node_at (after (writeFile mime_lookup now p B) s) t p
                     = Inr (Some (FileNode p (sha256 B) sz m c now)))"
proof -
  let ?H = "sha256 B"
  let ?s' = "snd (writeFile mime_lookup now p B s)"
  have room': "list_all (\<lambda>b. b_reference_count b < 2147483647) (filter (has_hash ?H) (blobs s))"
    using room by (simp add: blob_rows_def)
  have blob': "files s (getFilePath ?H) = None \<or> files s (getFilePath ?H) = Some B"
    using blob by (simp add: blob_at_def)
  from INCREMENT_cases [OF room', of now] obtain bl1
    where i: "INCREMENT_BLOB_REF now ?H (blobs s) = Inr bl1" by blast
  have main: "fst (writeFile mime_lookup now p B s) = Inr ()
       \<and> currentTenantId ?s' = Some t
       \<and> files ?s' (getFilePath ?H) = Some B
       \<and> (\<exists>sz m c. first_node (rows_at t p (fs_nodes ?s'))
                     = Inr (Some (FileNode p ?H sz m c now)))"
  proof (cases "node_at s t p = Inr None")
    case True
    with node_at_InrD [of s t p None] have a: "rows_at t p (fs_nodes s) = []"
      by (simp add: first_node_None)
    from True target have fits: "index_row_size p \<le> 2704" by auto
    have par: "first_node (rows_at t (parentPath p) (fs_nodes s))
                 = Inr (Some (DirectoryNode pp pc pm))"
      using node_at_InrD [OF parent] by simp
    note w = writeFile_new [OF tenant valid a fits par i, of mime_lookup]
    have "first_node (rows_at t p (fs_nodes ?s'))
            = Inr (Some (FileNode p ?H (Some (length B)) (Some (mimeType_of mime_lookup p)) now now))"
      unfolding w(2) new_FileNode_def
      by (rule node_at_after_insert [OF a valid]) simp
    with w files_after_write_at [OF blob'] show ?thesis by simp
  next
    case False
    with target obtain q h sz m c md
      where n: "node_at s t p = Inr (Some (FileNode q h sz m c md))"
        and ne: "blob_rows s h \<noteq> []"
        and ge: "list_all (\<lambda>b. 1 \<le> b_reference_count b) (blob_rows s h)" by blast
    from node_at_File_facts [OF n] have q: "q = p" by simp
    have n': "first_node (rows_at t p (fs_nodes s)) = Inr (Some (FileNode q h sz m c md))"
      using node_at_InrD [OF n] by simp
    have "\<exists>ret bl2. DECREMENT_BLOB_REF now h bl1 = Inr (ret, bl2)
                     \<and> (h = ?H \<longrightarrow> ret \<noteq> [] \<and> hd ret \<noteq> 0)"
    proof (cases "h = ?H")
      case True
      have ne': "filter (has_hash ?H) (blobs s) \<noteq> []" using ne True by (simp add: blob_rows_def)
      have ge': "list_all (\<lambda>b. 1 \<le> b_reference_count b) (filter (has_hash ?H) (blobs s))"
        using ge True by (simp add: blob_rows_def)
      from INCREMENT_present [OF ne' room', of now] i
      have bl1: "bl1 = map (\<lambda>b. if has_hash ?H b
                then b\<lparr>b_reference_count := b_reference_count b + 1, b_last_accessed_at := now\<rparr>
                else b) (blobs s)" by simp
      have "map b_reference_count (filter (has_hash ?H) (blobs s)) \<noteq> []"
           "hd (map b_reference_count (filter (has_hash ?H) (blobs s))) \<noteq> 0"
        using ne' ge' by (cases "filter (has_hash ?H) (blobs s)"; simp)+
      with DECREMENT_after_INCREMENT_same [OF ge', of now] True bl1 show ?thesis by simp
    next
      case False
      from INCREMENT_other_rows [OF i False] ge
      have "list_all (\<lambda>b. 1 \<le> b_reference_count b) (filter (has_hash h) bl1)"
        by (simp add: blob_rows_def)
      from DECREMENT_succeeds [OF this, of now] False show ?thesis by auto
    qed
    then obtain ret bl2 where d: "DECREMENT_BLOB_REF now h bl1 = Inr (ret, bl2)"
      and same: "h = ?H \<longrightarrow> ret \<noteq> [] \<and> hd ret \<noteq> 0" by blast
    note u = writeFile_update [OF tenant valid n' i d, of mime_lookup]
    have f: "files ?s' (getFilePath ?H) = Some B"
      using u(4) same files_after_write_at [OF blob'] by (cases "h = ?H") auto
    have "first_node (rows_at t p (fs_nodes ?s'))
            = Inr (Some (FileNode p ?H (Some (length B)) m c now))"
      unfolding u(2) by (rule node_at_after_update [OF n']) simp
    with u f show ?thesis by simp
  qed
  then obtain sz m c where nd: "first_node (rows_at t p (fs_nodes ?s'))
                     = Inr (Some (FileNode p ?H sz m c now))"
    and w: "fst (writeFile mime_lookup now p B s) = Inr ()" "currentTenantId ?s' = Some t"
           "files ?s' (getFilePath ?H) = Some B" by blast
  have "fst (readFile p ?s') = Inr B"
    using readFile_file [OF w(2) tenant(2) text_ok_valid [OF valid] nd] w(3) by simp
  with w nd show ?thesis
    by (auto simp: result_def after_def node_at_rows [OF text_ok_valid [OF valid]])
qed

text \<open>
  The theorem at \<^verbatim>\<open>writeFile("/hello.txt", "Hello World")\<close> below the tenant root: the
  stored hash is the digest \<open>hello_hash\<close>.
\<close>

theorem write_then_read_witness:
  "FilePath_create ''/hello.txt'' = Inr ''/hello.txt''
   \<and> node_at root_store tenant1 (parentPath ''/hello.txt'') = Inr (Some (DirectoryNode ''/'' 1 1))
   \<and> node_at root_store tenant1 ''/hello.txt'' = Inr None
   \<and> index_row_size ''/hello.txt'' \<le> 2704
   \<and> blob_at root_store (sha256 hello) = None
   \<and> result (writeFile sample_mime 2 ''/hello.txt'' hello) root_store = Inr ()
   \<and> result (readFile ''/hello.txt'') (after (writeFile sample_mime 2 ''/hello.txt'' hello) root_store)
       = Inr hello
   \<and> (\<exists>sz m c. node_at (after (writeFile sample_mime 2 ''/hello.txt'' hello) root_store)
                   tenant1 ''/hello.txt''
                 = Inr (Some (FileNode ''/hello.txt'' hello_hash sz m c 2)))"
proof -
  have h: "currentTenantId root_store = Some tenant1" "tenant1 \<noteq> []"
    "FilePath_create ''/hello.txt'' = Inr ''/hello.txt''"
    "node_at root_store tenant1 (parentPath ''/hello.txt'') = Inr (Some (DirectoryNode ''/'' 1 1))"
    "node_at root_store tenant1 ''/hello.txt'' = Inr None"
    "blob_at root_store (sha256 hello) = None"
    "list_all (\<lambda>b. b_reference_count b < 2147483647) (blob_rows root_store (sha256 hello))"
    "index_row_size ''/hello.txt'' \<le> 2704"
    by (simp_all add: root_store_simps lookup_defs index_row_size_def tenant1_def)
  from write_then_read [where B = hello and mime_lookup = sample_mime and now = 2,
      OF h(1) h(2) h(3) h(4) _ _ h(7)] h(5) h(6) h(8)
  show ?thesis using h(3) h(4) by (simp add: sha256_hello)
qed

text \<open>
  Where \<open>p\<close> is an existing directory (its parent exists all the same) the write throws
  \<^verbatim>\<open>FileAlreadyExistsError\<close> and the read \<^verbatim>\<open>FileNotFoundError\<close>.
\<close>

theorem write_then_read_counterexample:
  "FilePath_create ''/docs'' = Inr ''/docs''
   \<and> node_at docs_store tenant1 (parentPath ''/docs'') = Inr (Some (DirectoryNode ''/'' 1 1))
   \<and> result (writeFile sample_mime 3 ''/docs'' hello) docs_store
       = Inl (FileAlreadyExistsError ''Path is a directory: /docs'')
   \<and> result (readFile ''/docs'') (after (writeFile sample_mime 3 ''/docs'' hello) docs_store)
       = Inl (FileNotFoundError ''Path is a directory: /docs'')"
proof -
  have g: "first_node (rows_at tenant1 ''/docs'' (fs_nodes docs_store))
             = Inr (Some (DirectoryNode ''/docs'' 2 2))"
    by (simp add: docs_store_simps lookup_defs tenant1_def)
  have t: "tenant1 \<noteq> []" by (simp add: tenant1_def)
  have v: "FilePath_create ''/docs'' = Inr ''/docs''" by (simp add: lookup_defs)
  have w: "result (writeFile sample_mime 3 ''/docs'' hello) docs_store
             = Inl (FileAlreadyExistsError ''Path is a directory: /docs'')"
    "fs_nodes (after (writeFile sample_mime 3 ''/docs'' hello) docs_store) = fs_nodes docs_store"
    "currentTenantId (after (writeFile sample_mime 3 ''/docs'' hello) docs_store) = Some tenant1"
    using g t v docs_store_simps(1)
    by (simp_all add: result_def after_def writeFile_def prim_defs text_ok_def Let_def)
  have r: "result (readFile ''/docs'') (after (writeFile sample_mime 3 ''/docs'' hello) docs_store)
       = Inl (FileNotFoundError ''Path is a directory: /docs'')"
    using g t w(2) w(3) by (simp add: result_def readFile_def prim_defs text_ok_def)
  have p: "node_at docs_store tenant1 (parentPath ''/docs'') = Inr (Some (DirectoryNode ''/'' 1 1))"
    by (simp add: docs_store_simps lookup_defs tenant1_def)
  from v p w(1) r show ?thesis by simp
qed

section \<open>Copying a file\<close>

text \<open>
  C2, as the code has it. \<^verbatim>\<open>copyFile(source, destination)\<close> is \<^verbatim>\<open>readFile(source)\<close> followed
  by \<^verbatim>\<open>writeFile(destination, content)\<close>. Let the source be a file node whose blob the store
  holds under its hash, the destination a valid path of at most 2676 bytes at which there
  is no node and at whose parent path there is one, and the reference count of the hash
  below 2147483647. Then the copy succeeds with exactly these calls: it looks up the
  source, reads its blob, asks the blob store whether the hash is there (it is, so no blob
  is written), looks up the destination and its parent, creates the node and increments
  the reference count. The new node has the hash of the source and the length of the
  content; its MIME type is looked up from the destination path and its times are those
  of the copy. The source node and the blob files are as before.
\<close>

theorem copyFile_to_new_path:
  assumes tenant: "currentTenantId s = Some t" "t \<noteq> []"
    and src: "node_at s t source = Inr (Some (FileNode q h sz m c md))"
    and blob: "blob_at s h = Some B"
    and addressed: "sha256 B = h"
    and valid: "FilePath_create destination = Inr destination"
    and absent: "node_at s t destination = Inr None"
    and parent: "node_at s t (parentPath destination) = Inr (Some par)"
    and rows: "blob_rows s h \<noteq> []"
    and room: "list_all (\<lambda>b. b_reference_count b < 2147483647) (blob_rows s h)"
    and fits: "index_row_size destination \<le> 2704"
  shows "result (copyFile mime_lookup now source destination) s = Inr ()
       \<and> new_calls (copyFile mime_lookup now source destination) s
           = [GetNodeByPath source, BlobRead h, BlobExists h, GetNodeByPath destination,
              GetNodeByPath (parentPath destination), CreateNode destination,
              IncrementBlobRefCount h]
       \<and> node_at (after (copyFile mime_lookup now source destination) s) t destination
           = Inr (Some (FileNode destination h (Some (length B))
                          (Some (mimeType_of mime_lookup destination)) now now))
       \<and> node_at (after (copyFile mime_lookup now source destination) s) t source
           = node_at s t source
       \<and> refcounts (after (copyFile mime_lookup now source destination) s) h
           = map (\<lambda>n. n + 1) (refcounts s h)
       \<and> files (after (copyFile mime_lookup now source destination) s) = files s"
proof -
  let ?s1 = "s\<lparr>calls := calls s @ [GetNodeByPath source, BlobRead h]\<rparr>"
  let ?w = "writeFile mime_lookup now destination B"
  have r: "readFile source s = (Inr B, ?s1)"
    by (rule readFile_ok [OF tenant src blob])
  then have c: "copyFile mime_lookup now source destination s = ?w ?s1"
    by (simp add: copyFile_def bind_io_def)
  have t1: "currentTenantId ?s1 = Some t" using tenant by simp
  have a: "rows_at t destination (fs_nodes ?s1) = []"
    using node_at_InrD [OF absent] by (simp add: first_node_None)
  have a0: "rows_at t destination (fs_nodes s) = []" using a by simp
  have p: "first_node (rows_at t (parentPath destination) (fs_nodes ?s1)) = Inr (Some par)"
    using node_at_InrD [OF parent] by simp
  have ne: "filter (has_hash h) (blobs s) \<noteq> []" using rows by (simp add: blob_rows_def)
  have rm: "list_all (\<lambda>b. b_reference_count b < 2147483647) (filter (has_hash h) (blobs s))"
    using room by (simp add: blob_rows_def)
  have i: "INCREMENT_BLOB_REF now (sha256 B) (blobs ?s1)
             = Inr (map (\<lambda>b. if has_hash h b
                then b\<lparr>b_reference_count := b_reference_count b + 1, b_last_accessed_at := now\<rparr>
                else b) (blobs s))"
    using INCREMENT_present [OF ne rm, of now] addressed by simp
  note w = writeFile_new [OF t1 tenant(2) valid a fits p i, of mime_lookup]
  note wc = writeFile_new_calls [OF t1 tenant(2) valid a fits p i, of mime_lookup]
  have f: "files ?s1 (getFilePath (sha256 B)) = Some B"
    using blob addressed by (simp add: blob_at_def)
  have calls: "calls (snd (?w ?s1)) = calls ?s1 @ new_calls ?w ?s1"
    using writeFile_calls_append [of mime_lookup now destination B ?s1] by (simp add: after_def)
  have nc: "new_calls (copyFile mime_lookup now source destination) s
           = [GetNodeByPath source, BlobRead h] @ new_calls ?w ?s1"
    unfolding new_calls_def [of "copyFile mime_lookup now source destination"] c calls by simp
  have hv: "ContentHash_fromString h = Inr h"
    using node_at_File_facts(3) [OF src] .
  have nd: "first_node (rows_at t destination (fs_nodes (snd (?w ?s1))))
          = Inr (Some (FileNode destination h (Some (length B))
                         (Some (mimeType_of mime_lookup destination)) now now))"
    unfolding w(2) new_FileNode_def addressed
    using node_at_after_insert [OF a0 valid hv] by simp
  have sd: "source \<noteq> destination" using src absent by auto
  have ns: "rows_at t source (fs_nodes (snd (?w ?s1))) = rows_at t source (fs_nodes s)"
    unfolding w(2) using sd
    by (simp add: GET_append rows_at_def at_path_def node_row_def new_FileNode_def)
  have ts: "text_ok source" "text_ok destination"
    using node_at_InrD [OF src] text_ok_valid [OF valid] by simp_all
  show ?thesis
    using w wc nc nd ns f addressed
    by (simp add: result_def after_def c node_at_rows [OF ts(1)] node_at_rows [OF ts(2)]
          refcounts_def blob_rows_def refcounts_after_increment files_after_write_def)
qed

text \<open>
  The theorem at copying \<^verbatim>\<open>/hello.txt\<close> to \<^verbatim>\<open>/copy.png\<close>: both nodes have the hash of
  "Hello World" with reference count 2, and the history holds one blob write, that of
  the first \<^verbatim>\<open>writeFile\<close>.
\<close>

theorem copyFile_to_new_path_witness:
  "node_at hello_store tenant1 ''/hello.txt''
     = Inr (Some (FileNode ''/hello.txt'' (sha256 hello) (Some 11) (Some ''text/plain'') 2 2))
   \<and> node_at hello_store tenant1 ''/copy.png'' = Inr None
   \<and> refcounts hello_store (sha256 hello) = [1]
   \<and> result (copyFile sample_mime 3 ''/hello.txt'' ''/copy.png'') hello_store = Inr ()
   \<and> new_calls (copyFile sample_mime 3 ''/hello.txt'' ''/copy.png'') hello_store
       = [GetNodeByPath ''/hello.txt'', BlobRead (sha256 hello), BlobExists (sha256 hello),
          GetNodeByPath ''/copy.png'', GetNodeByPath ''/'', CreateNode ''/copy.png'',
          IncrementBlobRefCount (sha256 hello)]
   \<and> node_at (after (copyFile sample_mime 3 ''/hello.txt'' ''/copy.png'') hello_store)
         tenant1 ''/copy.png''
       = Inr (Some (FileNode ''/copy.png'' (sha256 hello) (Some 11) (Some ''image/png'') 3 3))
   \<and> node_at (after (copyFile sample_mime 3 ''/hello.txt'' ''/copy.png'') hello_store)
         tenant1 ''/hello.txt''
       = Inr (Some (FileNode ''/hello.txt'' (sha256 hello) (Some 11) (Some ''text/plain'') 2 2))
   \<and> refcounts (after (copyFile sample_mime 3 ''/hello.txt'' ''/copy.png'') hello_store)
         (sha256 hello) = [2]
   \<and> length (filter isBlobWrite (calls hello_store
         @ new_calls (copyFile sample_mime 3 ''/hello.txt'' ''/copy.png'') hello_store)) = 1"
proof -
  have h: "currentTenantId hello_store = Some tenant1" "tenant1 \<noteq> []"
    "node_at hello_store tenant1 ''/hello.txt''
       = Inr (Some (FileNode ''/hello.txt'' (sha256 hello) (Some 11) (Some ''text/plain'') 2 2))"
    "blob_at hello_store (sha256 hello) = Some hello"
    "sha256 hello = sha256 hello"
    "FilePath_create ''/copy.png'' = Inr ''/copy.png''"
    "node_at hello_store tenant1 ''/copy.png'' = Inr None"
    "node_at hello_store tenant1 (parentPath ''/copy.png'') = Inr (Some (DirectoryNode ''/'' 1 1))"
    "blob_rows hello_store (sha256 hello) \<noteq> []"
    "list_all (\<lambda>b. b_reference_count b < 2147483647) (blob_rows hello_store (sha256 hello))"
    "index_row_size ''/copy.png'' \<le> 2704"
    by (simp_all add: hello_store_simps lookup_defs index_row_size_def tenant1_def)
  have r: "refcounts hello_store (sha256 hello) = [1]"
    by (simp add: hello_store_simps lookup_defs)
  have m: "mimeType_of sample_mime ''/copy.png'' = ''image/png''"
    by (simp add: mimeType_of_def sample_mime_def endsWith_def)
  from copyFile_to_new_path [OF h, of sample_mime 3] h(3) h(7) r m
  show ?thesis by (simp add: hello_store_calls parentPath_def substring_def)
qed

text \<open>
  That copy does call the blob store, and the MIME type of the copy is not that of the
  source.
\<close>

theorem copyFile_blob_calls_counterexample:
  "list_ex isBlobCall (new_calls (copyFile sample_mime 3 ''/hello.txt'' ''/copy.png'') hello_store)
   \<and> BlobRead (sha256 hello)
       \<in> set (new_calls (copyFile sample_mime 3 ''/hello.txt'' ''/copy.png'') hello_store)
   \<and> map_sum id (map_option getMimeType) (node_at hello_store tenant1 ''/hello.txt'')
       = Inr (Some (Some ''text/plain''))
   \<and> map_sum id (map_option getMimeType)
        (node_at (after (copyFile sample_mime 3 ''/hello.txt'' ''/copy.png'') hello_store)
           tenant1 ''/copy.png'')
       = Inr (Some (Some ''image/png''))"
proof -
  have a: "after (copyFile sample_mime 3 ''/hello.txt'' ''/copy.png'') hello_store
             = hello_store\<lparr>calls := calls hello_store @
                  [GetNodeByPath ''/hello.txt'', BlobRead (sha256 hello), BlobExists (sha256 hello),
                   GetNodeByPath ''/copy.png'', GetNodeByPath ''/'', CreateNode ''/copy.png'',
                   IncrementBlobRefCount (sha256 hello)],
                fs_nodes := fs_nodes hello_store @
                  [\<lparr>n_tenant_id = tenant1, n_path = ''/copy.png'', n_type = ''file'',
                    n_content_hash = Some (sha256 hello), n_size = Some 11,
                    n_mime_type = Some ''image/png'', n_created_at = 3, n_modified_at = 3\<rparr>],
                blobs := [\<lparr>b_content_hash = sha256 hello, b_reference_count = 2, b_size = 0,
                           b_created_at = 2, b_last_accessed_at = 3\<rparr>]\<rparr>"
    by (simp add: eval_defs hello_store_simps sample_mime_def endsWith_def tenant1_def)
  show ?thesis
    unfolding new_calls_def a [unfolded after_def]
    by (simp add: a hello_store_simps lookup_defs tenant1_def)
qed

section \<open>Copying and moving onto an existing node\<close>

text \<open>
  C3, as the code has it. Let the source be a file node with its blob in the store. A
  directory at the destination makes \<^verbatim>\<open>copyFile\<close> and \<^verbatim>\<open>moveFile\<close> fail with
  \<^verbatim>\<open>FileAlreadyExistsError\<close>, the table \<^verbatim>\<open>fs_nodes\<close> unchanged. A file at the destination
  (its blob row counting at least 1 reference) is overwritten: \<^verbatim>\<open>copyFile\<close> succeeds and the
  node at the destination then has the hash and the length of the source's content, with
  its own MIME type and creation time; after \<^verbatim>\<open>moveFile\<close> of a source other than the
  destination the node at the destination is the same.
\<close>

theorem copy_move_onto_existing:
  assumes tenant: "currentTenantId s = Some t" "t \<noteq> []"
    and src: "node_at s t source = Inr (Some (FileNode q h sz m c md))"
    and blob: "blob_at s h = Some B"
    and dst: "node_at s t destination = Inr (Some dnode)"
    and refs: "isFile dnode \<Longrightarrow> blob_rows s (getContentHash dnode) \<noteq> []
                 \<and> list_all (\<lambda>b. 1 \<le> b_reference_count b) (blob_rows s (getContentHash dnode))"
    and room: "list_all (\<lambda>b. b_reference_count b < 2147483647) (blob_rows s (sha256 B))"
  shows "case dnode of
           DirectoryNode dq dc dmd \<Rightarrow>
             result (copyFile mime_lookup now source destination) s
               = Inl (FileAlreadyExistsError (''Path is a directory: '' @ destination))
             \<and> result (moveFile mime_lookup now source destination) s
               = Inl (FileAlreadyExistsError (''Path is a directory: '' @ destination))
             \<and> fs_nodes (after (copyFile mime_lookup now source destination) s) = fs_nodes s
             \<and> fs_nodes (after (moveFile mime_lookup now source destination) s) = fs_nodes s
         | FileNode dq dh dsz dm dc dmd \<Rightarrow>
             result (copyFile mime_lookup now source destination) s = Inr ()
             \<and> node_at (after (copyFile mime_lookup now source destination) s) t destination
                 = Inr (Some (FileNode destination (sha256 B) (Some (length B)) dm dc now))
             \<and> (source = destination
                  \<or> node_at (after (moveFile mime_lookup now source destination) s) t destination
                      = Inr (Some (FileNode destination (sha256 B) (Some (length B)) dm dc now)))"
proof -
  let ?s1 = "s\<lparr>calls := calls s @ [GetNodeByPath source, BlobRead h]\<rparr>"
  let ?w = "writeFile mime_lookup now destination B"
  have r: "readFile source s = (Inr B, ?s1)"
    by (rule readFile_ok [OF tenant src blob])
  then have c: "copyFile mime_lookup now source destination s = ?w ?s1"
    by (simp add: copyFile_def bind_io_def)
  have t1: "currentTenantId ?s1 = Some t" using tenant by simp
  have d1: "node_at ?s1 t destination = Inr (Some dnode)" using dst by (simp add: node_at_def)
  show ?thesis
  proof (cases dnode)
    case (DirectoryNode dq dc dmd)
    note w = writeFile_on_directory [OF t1 tenant(2) d1 [unfolded DirectoryNode], of mime_lookup now B]
    have "moveFile mime_lookup now source destination s = ?w ?s1"
      using w(1) c by (cases "?w ?s1") (simp add: moveFile_def bind_io_def)
    with w c DirectoryNode show ?thesis by (simp add: result_def after_def)
  next
    case (FileNode dq dh dsz dm dc dmd)
    from refs FileNode have ne: "blob_rows ?s1 dh \<noteq> []"
      and ge: "list_all (\<lambda>b. 1 \<le> b_reference_count b) (blob_rows ?s1 dh)"
      by (simp_all add: blob_rows_def)
    have room1: "list_all (\<lambda>b. b_reference_count b < 2147483647) (blob_rows ?s1 (sha256 B))"
      using room by (simp add: blob_rows_def)
    note w = writeFile_over_file [OF t1 tenant(2) d1 [unfolded FileNode] ne ge room1, of mime_lookup now]
    have mv: "source = destination
          \<or> node_at (after (moveFile mime_lookup now source destination) s) t destination
              = Inr (Some (FileNode destination (sha256 B) (Some (length B)) dm dc now))"
    proof (cases "source = destination")
      case True
      then show ?thesis by simp
    next
      case False
      have m: "moveFile mime_lookup now source destination s = deleteFile now source (snd (?w ?s1))"
        using w(1) c by (cases "?w ?s1") (simp add: moveFile_def bind_io_def)
      from deleteFile_rows [OF w(2) tenant(2), of now source]
      have "rows_at t destination (fs_nodes (snd (deleteFile now source (snd (?w ?s1)))))
              = rows_at t destination (fs_nodes (snd (?w ?s1)))"
        using False by (auto simp: GET_DELETE)
      with w(3) m node_at_InrD [OF dst] show ?thesis
        by (simp add: node_at_def GET_NODE_BY_PATH_def after_def)
    qed
    from w c mv FileNode show ?thesis by (simp add: result_def after_def)
  qed
qed

text \<open>
  The theorem at \<^verbatim>\<open>/hello.txt\<close> copied and moved onto the directory \<^verbatim>\<open>/docs\<close> and onto the
  file \<^verbatim>\<open>/empty.txt\<close>.
\<close>

theorem copy_move_onto_existing_witness:
  "node_at tree_store tenant1 ''/docs'' = Inr (Some (DirectoryNode ''/docs'' 2 2))
   \<and> result (copyFile sample_mime 5 ''/hello.txt'' ''/docs'') tree_store
       = Inl (FileAlreadyExistsError ''Path is a directory: /docs'')
   \<and> result (moveFile sample_mime 5 ''/hello.txt'' ''/docs'') tree_store
       = Inl (FileAlreadyExistsError ''Path is a directory: /docs'')
   \<and> fs_nodes (after (moveFile sample_mime 5 ''/hello.txt'' ''/docs'') tree_store)
       = fs_nodes tree_store
   \<and> node_at tree_store tenant1 ''/empty.txt''
       = Inr (Some (FileNode ''/empty.txt'' (sha256 []) (Some 0) (Some ''text/plain'') 4 4))
   \<and> result (copyFile sample_mime 5 ''/hello.txt'' ''/empty.txt'') tree_store = Inr ()
   \<and> node_at (after (copyFile sample_mime 5 ''/hello.txt'' ''/empty.txt'') tree_store)
         tenant1 ''/empty.txt''
       = Inr (Some (FileNode ''/empty.txt'' (sha256 hello) (Some 11) (Some ''text/plain'') 4 5))
   \<and> node_at (after (moveFile sample_mime 5 ''/hello.txt'' ''/empty.txt'') tree_store)
         tenant1 ''/empty.txt''
       = Inr (Some (FileNode ''/empty.txt'' (sha256 hello) (Some 11) (Some ''text/plain'') 4 5))"
proof -
  have h: "currentTenantId tree_store = Some tenant1" "tenant1 \<noteq> []"
    "node_at tree_store tenant1 ''/hello.txt''
       = Inr (Some (FileNode ''/hello.txt'' (sha256 hello) (Some 11) (Some ''text/plain'') 3 3))"
    "blob_at tree_store (sha256 hello) = Some hello"
    by (simp_all add: tree_store_simps lookup_defs tenant1_def)
  have d: "node_at tree_store tenant1 ''/docs'' = Inr (Some (DirectoryNode ''/docs'' 2 2))"
    and f: "node_at tree_store tenant1 ''/empty.txt''
       = Inr (Some (FileNode ''/empty.txt'' (sha256 []) (Some 0) (Some ''text/plain'') 4 4))"
    and room: "list_all (\<lambda>b. b_reference_count b < 2147483647) (blob_rows tree_store (sha256 hello))"
    and refs: "blob_rows tree_store (sha256 []) \<noteq> []
                 \<and> list_all (\<lambda>b. 1 \<le> b_reference_count b) (blob_rows tree_store (sha256 []))"
    by (simp_all add: tree_store_simps lookup_defs tenant1_def)
  from copy_move_onto_existing [OF h d _ room, of sample_mime 5]
       copy_move_onto_existing [OF h f _ room, of sample_mime 5] refs d f
  show ?thesis by simp
qed

text \<open>The copy onto the existing file \<^verbatim>\<open>/empty.txt\<close> succeeds and replaces its hash.\<close>

theorem copyFile_overwrites_counterexample:
  "node_at tree_store tenant1 ''/empty.txt''
       = Inr (Some (FileNode ''/empty.txt'' (sha256 []) (Some 0) (Some ''text/plain'') 4 4))
   \<and> result (copyFile sample_mime 5 ''/hello.txt'' ''/empty.txt'') tree_store = Inr ()
   \<and> map_sum id (map_option getContentHash)
        (node_at (after (copyFile sample_mime 5 ''/hello.txt'' ''/empty.txt'') tree_store)
           tenant1 ''/empty.txt'')
       = Inr (Some (sha256 hello))
   \<and> sha256 hello \<noteq> sha256 []"
proof -
  have f: "node_at tree_store tenant1 ''/empty.txt''
       = Inr (Some (FileNode ''/empty.txt'' (sha256 []) (Some 0) (Some ''text/plain'') 4 4))"
    by (simp add: tree_store_simps lookup_defs tenant1_def)
  have r: "result (copyFile sample_mime 5 ''/hello.txt'' ''/empty.txt'') tree_store = Inr ()"
    and n: "fs_nodes (after (copyFile sample_mime 5 ''/hello.txt'' ''/empty.txt'') tree_store)
       = [\<lparr>n_tenant_id = tenant1, n_path = ''/'', n_type = ''directory'', n_content_hash = None,
       n_size = None, n_mime_type = None, n_created_at = 1, n_modified_at = 1\<rparr>,
      \<lparr>n_tenant_id = tenant1, n_path = ''/docs'', n_type = ''directory'', n_content_hash = None,
       n_size = None, n_mime_type = None, n_created_at = 2, n_modified_at = 2\<rparr>,
      \<lparr>n_tenant_id = tenant1, n_path = ''/hello.txt'', n_type = ''file'',
       n_content_hash = Some (sha256 hello), n_size = Some 11, n_mime_type = Some ''text/plain'',
       n_created_at = 3, n_modified_at = 3\<rparr>,
      \<lparr>n_tenant_id = tenant1, n_path = ''/empty.txt'', n_type = ''file'',
       n_content_hash = Some (sha256 hello), n_size = Some 11, n_mime_type = Some ''text/plain'',
       n_created_at = 4, n_modified_at = 5\<rparr>]"
    by (simp_all add: eval_defs tree_store_simps tenant1_def)
  from f r show ?thesis
    by (simp add: n lookup_defs tenant1_def)
qed

section \<open>Where a path is validated\<close>

text \<open>
  C4, as the code has it. Only \<^verbatim>\<open>createDirectory\<close> and \<^verbatim>\<open>writeFile\<close> build a \<^verbatim>\<open>FilePath\<close>
  from their argument: given a path that is empty, does not start with a slash, or holds
  \<^verbatim>\<open>..\<close> or a null byte, they throw the \<^verbatim>\<open>Error\<close> of \<^verbatim>\<open>FilePath.create\<close> and leave the state,
  the history of store calls included, as it was. Every other operation starts by
  calling \<^verbatim>\<open>getNodeByPath\<close> on the path as it was given; \<^verbatim>\<open>copyFile\<close> and \<^verbatim>\<open>moveFile\<close> do so
  on their source, whichever of the two paths is the invalid one.
\<close>

theorem path_validation_where_present:
  assumes "path = [] \<or> \<not> startsWith path ''/'' \<or> includes_str path ''..''
           \<or> includes_str path [CHR 0x00]"
  shows "(\<exists>msg. FilePath_create path = Inl (Error msg)
            \<and> createDirectory now path s = (Inl (Error msg), s)
            \<and> writeFile mime_lookup now path content s = (Inl (Error msg), s))
       \<and> take 1 (new_calls (readFile path) s) = [GetNodeByPath path]
       \<and> take 1 (new_calls (deleteFile now path) s) = [GetNodeByPath path]
       \<and> take 1 (new_calls (deleteDirectory path) s) = [GetNodeByPath path]
       \<and> take 1 (new_calls (listDirectory path) s) = [GetNodeByPath path]
       \<and> take 1 (new_calls (getInfo path) s) = [GetNodeByPath path]
       \<and> take 1 (new_calls (copyFile mime_lookup now path other) s) = [GetNodeByPath path]
       \<and> take 1 (new_calls (moveFile mime_lookup now path other) s) = [GetNodeByPath path]
       \<and> take 1 (new_calls (copyFile mime_lookup now other path) s) = [GetNodeByPath other]
       \<and> take 1 (new_calls (moveFile mime_lookup now other path) s) = [GetNodeByPath other]"
proof -
  from FilePath_create_rejects [OF assms] obtain msg
    where m: "FilePath_create path = Inl (Error msg)" by blast
  from rejected_before_any_call [OF m] m
  have a: "\<exists>msg. FilePath_create path = Inl (Error msg)
            \<and> createDirectory now path s = (Inl (Error msg), s)
            \<and> writeFile mime_lookup now path content s = (Inl (Error msg), s)"
    by blast
  show ?thesis
    using a holdsD [OF first_call_readFile [where path = path], where s = s]
      holdsD [OF first_call_deleteFile [where path = path and now = now], where s = s]
      holdsD [OF first_call_deleteDirectory [where path = path], where s = s]
      holdsD [OF first_call_listDirectory [where path = path], where s = s]
      holdsD [OF first_call_getInfo [where path = path], where s = s]
      holdsD [OF first_call_copyFile [where source = path and destination = other
                and mime_lookup = mime_lookup and now = now], where s = s]
      holdsD [OF first_call_moveFile [where source = path and destination = other
                and mime_lookup = mime_lookup and now = now], where s = s]
      holdsD [OF first_call_copyFile [where source = other and destination = path
                and mime_lookup = mime_lookup and now = now], where s = s]
      holdsD [OF first_call_moveFile [where source = other and destination = path
                and mime_lookup = mime_lookup and now = now], where s = s]
    by simp
qed

text \<open>The theorem at \<^verbatim>\<open>/../etc/passwd\<close> in the store holding the tenant root.\<close>

theorem path_validation_where_present_witness:
  "includes_str ''/../etc/passwd'' ''..''
   \<and> createDirectory 2 ''/../etc/passwd'' root_store
       = (Inl (Error ''Path cannot contain .. (directory traversal''), root_store)
   \<and> writeFile sample_mime 2 ''/../etc/passwd'' hello root_store
       = (Inl (Error ''Path cannot contain .. (directory traversal''), root_store)
   \<and> take 1 (new_calls (readFile ''/../etc/passwd'') root_store)
       = [GetNodeByPath ''/../etc/passwd'']
   \<and> take 1 (new_calls (getInfo ''/../etc/passwd'') root_store)
       = [GetNodeByPath ''/../etc/passwd'']"
proof -
  have i: "includes_str ''/../etc/passwd'' ''..''" by (simp add: startsWith_def)
  have f: "FilePath_create ''/../etc/passwd'' = Inl (Error ''Path cannot contain .. (directory traversal'')"
    by (simp add: FilePath_create_def startsWith_def)
  from path_validation_where_present [of "''/../etc/passwd''" 2 root_store sample_mime hello] i f
  show ?thesis by auto
qed

text \<open>
  \<^verbatim>\<open>readFile\<close> and \<^verbatim>\<open>getInfo\<close> of an invalid path query the metadata store and fail with
  \<^verbatim>\<open>FileNotFoundError\<close>.
\<close>

theorem path_validation_counterexample:
  "FilePath_create ''/../etc/passwd'' = Inl (Error ''Path cannot contain .. (directory traversal'')
   \<and> readFile ''/../etc/passwd'' root_store
       = (Inl (FileNotFoundError ''File not found: /../etc/passwd''),
          root_store\<lparr>calls := calls root_store @ [GetNodeByPath ''/../etc/passwd'']\<rparr>)
   \<and> new_calls (getInfo ''relative.txt'') root_store = [GetNodeByPath ''relative.txt'']
   \<and> result (getInfo ''relative.txt'') root_store
       = Inl (FileNotFoundError ''Path not found: relative.txt'')"
  by (simp add: FilePath_create_def startsWith_def readFile_def getInfo_def prim_defs
        new_calls_def result_def root_store_simps first_node_def rows_at_def text_ok_def
        at_path_def tenant1_def)

text \<open>
  A path with a null byte given to \<^verbatim>\<open>readFile\<close> reaches the \<^verbatim>\<open>SELECT\<close>, which the server
  refuses.
\<close>

lemma null_byte_reaches_the_store:
  "readFile [CHR ''/'', CHR 0x00] root_store
     = (Inl invalid_byte_sequence,
        root_store\<lparr>calls := calls root_store @ [GetNodeByPath [CHR ''/'', CHR 0x00]]\<rparr>)"
  by (simp add: readFile_def prim_defs root_store_simps text_ok_def tenant1_def)

section \<open>A file as parent\<close>

text \<open>
  C5 does not hold of the code. \<^verbatim>\<open>createDirectory\<close> and \<^verbatim>\<open>writeFile\<close> only test that there is
  a node at the parent path (\<^verbatim>\<open>if (!parent)\<close>), not that it is a directory. In the store
  holding the root and the file \<^verbatim>\<open>/hello.txt\<close>, \<^verbatim>\<open>writeFile("/hello.txt/x.txt", ...)\<close> and
  \<^verbatim>\<open>createDirectory("/hello.txt/sub")\<close> succeed; each leaves a node whose parent path holds a
  file node.
\<close>

theorem file_accepted_as_parent:
  "node_at hello_store tenant1 ''/hello.txt''
     = Inr (Some (FileNode ''/hello.txt'' (sha256 hello) (Some 11) (Some ''text/plain'') 2 2))
   \<and> parentPath ''/hello.txt/x.txt'' = ''/hello.txt''
   \<and> result (writeFile sample_mime 3 ''/hello.txt/x.txt'' hello) hello_store = Inr ()
   \<and> node_at (after (writeFile sample_mime 3 ''/hello.txt/x.txt'' hello) hello_store)
         tenant1 ''/hello.txt/x.txt''
       = Inr (Some (FileNode ''/hello.txt/x.txt'' (sha256 hello) (Some 11) (Some ''text/plain'') 3 3))
   \<and> node_at (after (writeFile sample_mime 3 ''/hello.txt/x.txt'' hello) hello_store)
         tenant1 ''/hello.txt''
       = Inr (Some (FileNode ''/hello.txt'' (sha256 hello) (Some 11) (Some ''text/plain'') 2 2))
   \<and> parentPath ''/hello.txt/sub'' = ''/hello.txt''
   \<and> result (createDirectory 3 ''/hello.txt/sub'') hello_store = Inr ()
   \<and> node_at (after (createDirectory 3 ''/hello.txt/sub'') hello_store) tenant1 ''/hello.txt/sub''
       = Inr (Some (DirectoryNode ''/hello.txt/sub'' 3 3))"
proof -
  have n: "node_at hello_store tenant1 ''/hello.txt''
     = Inr (Some (FileNode ''/hello.txt'' (sha256 hello) (Some 11) (Some ''text/plain'') 2 2))"
    by (simp add: hello_store_simps lookup_defs tenant1_def)
  have p: "parentPath ''/hello.txt/x.txt'' = ''/hello.txt''"
          "parentPath ''/hello.txt/sub'' = ''/hello.txt''"
    by (simp_all add: parentPath_def substring_def)
  have w: "result (writeFile sample_mime 3 ''/hello.txt/x.txt'' hello) hello_store = Inr ()"
    "fs_nodes (after (writeFile sample_mime 3 ''/hello.txt/x.txt'' hello) hello_store)
       = fs_nodes hello_store @
           [\<lparr>n_tenant_id = tenant1, n_path = ''/hello.txt/x.txt'', n_type = ''file'',
             n_content_hash = Some (sha256 hello), n_size = Some 11,
             n_mime_type = Some ''text/plain'', n_created_at = 3, n_modified_at = 3\<rparr>]"
    by (simp_all add: eval_defs hello_store_simps sample_mime_def endsWith_def tenant1_def)
  have c: "result (createDirectory 3 ''/hello.txt/sub'') hello_store = Inr ()"
    "fs_nodes (after (createDirectory 3 ''/hello.txt/sub'') hello_store)
       = fs_nodes hello_store @
           [\<lparr>n_tenant_id = tenant1, n_path = ''/hello.txt/sub'', n_type = ''directory'',
             n_content_hash = None, n_size = None, n_mime_type = None,
             n_created_at = 3, n_modified_at = 3\<rparr>]"
    by (simp_all add: eval_defs hello_store_simps tenant1_def)
  from n p w(1) c(1) show ?thesis
    by (simp add: w(2) c(2) hello_store_simps lookup_defs tenant1_def)
qed

section \<open>Listing the children of a directory\<close>

text \<open>
  C6, as the code has it. Let \<open>d\<close> be a path with no wildcard of \<^verbatim>\<open>LIKE\<close> and no null byte, in
  a database whose collation is a linear order with \<^verbatim>\<open>directory\<close> before \<^verbatim>\<open>file\<close>, every row
  being of type \<^verbatim>\<open>file\<close> or \<^verbatim>\<open>directory\<close> and readable as a node. Then \<^verbatim>\<open>listChildren(d)\<close>
  returns the nodes of exactly those rows of the tenant whose path is \<open>d\<close>, a slash and a
  name without a slash, as many as there are such rows; files come before directories
  (\<^verbatim>\<open>type DESC\<close>), and within each kind the paths ascend in the collation; the parent path
  of every node returned is \<open>d\<close>.
\<close>

theorem listChildren_exact:
  assumes tenant: "currentTenantId s = Some t" "t \<noteq> []"
    and literal: "like_literal d" "text_ok d" "d \<noteq> []"
    and order: "linear_order (collation s)" "collation s ''directory'' ''file''"
    and types: "\<forall>r\<in>set (fs_nodes s). n_type r = ''file'' \<or> n_type r = ''directory''"
    and readable: "\<forall>r\<in>set (fs_nodes s). \<exists>n. row_to_node r = Inr n"
  shows "\<exists>ns. result (listChildren d) s = Inr ns
           \<and> set ns = {n. \<exists>r\<in>set (fs_nodes s). n_tenant_id r = t \<and> is_child d (n_path r)
                              \<and> row_to_node r = Inr n}
           \<and> length ns = length (child_rows s t d)
           \<and> sorted_wrt (node_le (collation s)) ns
           \<and> (\<forall>n\<in>set ns. parentPath (getPath n) = d)"
proof -
  let ?rs = "order_rows (collation s) (child_rows s t d)"
  have sub: "set ?rs \<subseteq> set (fs_nodes s)"
    by (auto simp: set_order_rows child_rows_def)
  with readable rows_to_nodes_total [of ?rs] obtain ns where ns: "rows_to_nodes ?rs = Inr ns"
    by blast
  then have a2: "list_all2 (\<lambda>r n. row_to_node r = Inr n) ?rs ns"
    by (simp add: rows_to_nodes_all2)
  have r: "result (listChildren d) s = Inr ns"
    by (simp add: listChildren_result [OF tenant] children_of_def
          LIST_CHILDREN_child_rows [OF literal(1,2)] ns)
  have s1: "set ns = {n. \<exists>r\<in>set (fs_nodes s). n_tenant_id r = t \<and> is_child d (n_path r)
                              \<and> row_to_node r = Inr n}"
    unfolding set_nodes [OF a2] by (auto simp: set_order_rows child_rows_def)
  have l: "length ns = length (child_rows s t d)"
    using list_all2_lengthD [OF a2] by (simp add: length_order_rows)
  have so: "sorted_wrt (node_le (collation s)) ns"
    using sorted_nodes [OF a2 sorted_order_rows [OF order(1)] _ order] sub types by blast
  have pp: "\<forall>n\<in>set ns. parentPath (getPath n) = d"
    unfolding s1 using is_child_parentPath [OF _ literal(3)] by (auto simp: row_to_node_path)
  from r s1 l so pp show ?thesis by blast
qed

text \<open>The theorem at the root of the store with three children, under the collation \<^verbatim>\<open>C\<close>.\<close>

theorem listChildren_exact_witness:
  "like_literal ''/'' \<and> text_ok ''/'' \<and> currentTenantId tree_store = Some tenant1
   \<and> linear_order (collation tree_store) \<and> collation tree_store ''directory'' ''file''
   \<and> list_all (\<lambda>r. n_type r = ''file'' \<or> n_type r = ''directory'') (fs_nodes tree_store)
   \<and> list_all (\<lambda>r. \<exists>n. row_to_node r = Inr n) (fs_nodes tree_store)
   \<and> length (child_rows tree_store tenant1 ''/'') = 3
   \<and> (\<exists>ns. result (listChildren ''/'') tree_store = Inr ns \<and> length ns = 3
             \<and> sorted_wrt (node_le (collation tree_store)) ns
             \<and> (\<forall>n\<in>set ns. parentPath (getPath n) = ''/''))"
proof -
  have t: "currentTenantId tree_store = Some tenant1" "tenant1 \<noteq> []"
    by (simp_all add: tree_store_simps tenant1_def)
  have l: "like_literal ''/''" "text_ok ''/''" "''/'' \<noteq> []"
    by (simp_all add: like_literal_def text_ok_def)
  have o: "linear_order (collation tree_store)" "collation tree_store ''directory'' ''file''"
    by (simp_all add: tree_store_simps linear_order_bytes)
  have ty: "\<forall>r\<in>set (fs_nodes tree_store). n_type r = ''file'' \<or> n_type r = ''directory''"
    by (simp add: tree_store_simps)
  have rd: "\<forall>r\<in>set (fs_nodes tree_store). \<exists>n. row_to_node r = Inr n"
    by (simp add: tree_store_simps row_to_node_def FilePath_create_def startsWith_def)
  have c: "length (child_rows tree_store tenant1 ''/'') = 3"
    by (simp add: child_rows_def tree_store_simps is_child_def child_prefix_def startsWith_def
          tenant1_def)
  from listChildren_exact [OF t l o ty rd] obtain ns
    where "result (listChildren ''/'') tree_store = Inr ns"
      and "length ns = length (child_rows tree_store tenant1 ''/'')"
      and "sorted_wrt (node_le (collation tree_store)) ns"
      and "\<forall>n\<in>set ns. parentPath (getPath n) = ''/''" by blast
  with c have "\<exists>ns. result (listChildren ''/'') tree_store = Inr ns \<and> length ns = 3
             \<and> sorted_wrt (node_le (collation tree_store)) ns
             \<and> (\<forall>n\<in>set ns. parentPath (getPath n) = ''/'')" by auto
  with t(1) l(1,2) o ty rd c show ?thesis by (simp add: list_all_iff)
qed

text \<open>The listing of that root: the two files come before the directory.\<close>

theorem listChildren_order_counterexample:
  "result (listChildren ''/'') tree_store
     = Inr [FileNode ''/empty.txt'' (sha256 []) (Some 0) (Some ''text/plain'') 4 4,
            FileNode ''/hello.txt'' (sha256 hello) (Some 11) (Some ''text/plain'') 3 3,
            DirectoryNode ''/docs'' 2 2]"
  by (simp add: listChildren_def prim_defs result_def tree_store_simps sql_defs repo_defs
        FilePath_create_def startsWith_def tenant1_def)

text \<open>
  The pattern is built from the directory path as it is, so an underscore in it matches
  any character; and a path with a doubled slash below the root has the root as parent
  path but not the depth that the query asks for.
\<close>

lemma like_wildcard_in_directory_name:
  "like_match (children_pattern ''/a_b'') ''/axb/f''
   \<and> sql_slash_count ''/axb/f'' = children_depth ''/a_b''
   \<and> parentPath ''/axb/f'' = ''/axb''"
  by (simp add: children_pattern_def children_depth_def sql_slash_count_def match_count_def
        parentPath_def substring_def is_continuation_def)

lemma double_slash_not_listed:
  "FilePath_create ''//x'' = Inr ''//x'' \<and> parentPath ''//x'' = ''/''
   \<and> sql_slash_count ''//x'' \<noteq> children_depth ''/''"
  by (simp add: FilePath_create_def startsWith_def children_depth_def sql_slash_count_def
        parentPath_def substring_def)

section \<open>Deleting a directory\<close>

text \<open>
  C7, as the code has it. \<^verbatim>\<open>deleteDirectory(path)\<close> succeeds exactly when the node at the
  path is a directory and the children query gives no node; it then deletes the row of
  the path. With no node or a file at the path it throws \<^verbatim>\<open>DirectoryNotFoundError\<close>, with
  a child \<^verbatim>\<open>DirectoryNotEmptyError\<close>, and the table is as before. The root is treated like
  any other path.
\<close>

theorem deleteDirectory_outcome:
  assumes "currentTenantId s = Some t" "t \<noteq> []"
  shows "result (deleteDirectory path) s
       = (case node_at s t path of
            Inl e \<Rightarrow> Inl e
          | Inr None \<Rightarrow> Inl (DirectoryNotFoundError (''Directory not found: '' @ path))
          | Inr (Some (FileNode q h sz m c md)) \<Rightarrow>
              Inl (DirectoryNotFoundError (''Path is a file: '' @ path))
          | Inr (Some (DirectoryNode q c md)) \<Rightarrow>
              (case children_of s t path of
                 Inl e \<Rightarrow> Inl e
               | Inr [] \<Rightarrow> Inr ()
               | Inr (child # rest) \<Rightarrow>
                   Inl (DirectoryNotEmptyError (''Directory not empty: '' @ path))))
     \<and> (result (deleteDirectory path) s = Inr ()
          \<longleftrightarrow> (\<exists>q c md. node_at s t path = Inr (Some (DirectoryNode q c md)))
              \<and> children_of s t path = Inr [])
     \<and> fs_nodes (after (deleteDirectory path) s)
         = (if result (deleteDirectory path) s = Inr ()
            then filter (\<lambda>r. \<not> at_path t path r) (fs_nodes s)
            else fs_nodes s)"
proof -
  note r = deleteDirectory_result [OF assms, of path]
  have "result (deleteDirectory path) s = Inr ()
          \<longleftrightarrow> (\<exists>q c md. node_at s t path = Inr (Some (DirectoryNode q c md)))
              \<and> children_of s t path = Inr []"
    unfolding r by (auto split: sum.splits option.splits node.splits list.splits)
  with r deleteDirectory_rows [OF assms, of path] show ?thesis
    by (simp add: result_def)
qed

text \<open>
  The theorem in the store holding the root and \<^verbatim>\<open>/docs\<close>: the root is not empty,
  \<^verbatim>\<open>/docs\<close> is deleted, \<^verbatim>\<open>/missing\<close> is not found.
\<close>

theorem deleteDirectory_outcome_witness:
  "children_of docs_store tenant1 ''/'' = Inr [DirectoryNode ''/docs'' 2 2]
   \<and> result (deleteDirectory ''/'') docs_store
       = Inl (DirectoryNotEmptyError ''Directory not empty: /'')
   \<and> fs_nodes (after (deleteDirectory ''/'') docs_store) = fs_nodes docs_store
   \<and> children_of docs_store tenant1 ''/docs'' = Inr []
   \<and> result (deleteDirectory ''/docs'') docs_store = Inr ()
   \<and> fs_nodes (after (deleteDirectory ''/docs'') docs_store) = fs_nodes root_store
   \<and> result (deleteDirectory ''/missing'') docs_store
       = Inl (DirectoryNotFoundError ''Directory not found: /missing'')"
proof -
  have t: "currentTenantId docs_store = Some tenant1" "tenant1 \<noteq> []"
    by (simp_all add: docs_store_simps tenant1_def)
  have n: "node_at docs_store tenant1 ''/'' = Inr (Some (DirectoryNode ''/'' 1 1))"
    "node_at docs_store tenant1 ''/docs'' = Inr (Some (DirectoryNode ''/docs'' 2 2))"
    "node_at docs_store tenant1 ''/missing'' = Inr None"
    by (simp_all add: docs_store_simps lookup_defs tenant1_def)
  have c: "children_of docs_store tenant1 ''/'' = Inr [DirectoryNode ''/docs'' 2 2]"
    "children_of docs_store tenant1 ''/docs'' = Inr []"
    by (simp_all add: children_of_def docs_store_simps sql_defs repo_defs FilePath_create_def
          startsWith_def tenant1_def)
  have d: "filter (\<lambda>r. \<not> at_path tenant1 ''/docs'' r) (fs_nodes docs_store) = fs_nodes root_store"
    by (simp add: docs_store_simps root_store_simps at_path_def tenant1_def)
  from deleteDirectory_outcome [OF t, of "''/''"] deleteDirectory_outcome [OF t, of "''/docs''"]
       deleteDirectory_outcome [OF t, of "''/missing''"] n c d
  show ?thesis by simp
qed

text \<open>Deleting the empty root succeeds and leaves no row.\<close>

theorem deleteDirectory_root_counterexample:
  "node_at root_store tenant1 ''/'' = Inr (Some (DirectoryNode ''/'' 1 1))
   \<and> children_of root_store tenant1 ''/'' = Inr []
   \<and> result (deleteDirectory ''/'') root_store = Inr ()
   \<and> fs_nodes (after (deleteDirectory ''/'') root_store) = []"
  by (simp add: children_of_def root_store_simps lookup_defs sql_defs repo_defs
        deleteDirectory_def prim_defs result_def after_def tenant1_def)

section \<open>Writing the same content again\<close>

text \<open>
  C8, as the code has it. When a file node with the hash of \<open>B\<close> is at \<open>p\<close> and its blob
  row counts at least 1 and fewer than 2147483647 references,
  \<^verbatim>\<open>writeFile(p, B)\<close> takes the update branch like any other rewrite: it calls
  \<^verbatim>\<open>updateNode\<close>, then \<^verbatim>\<open>incrementBlobRefCount\<close> and \<^verbatim>\<open>decrementBlobRefCount\<close> of that
  hash. The node keeps its hash, MIME type and creation time and gets the new
  \<^verbatim>\<open>modifiedAt\<close>; the reference counts are as before (only \<^verbatim>\<open>last_accessed_at\<close> of the
  blob row changes); no blob is deleted, and none is written if the blob was there.
\<close>

theorem rewrite_same_content:
  assumes tenant: "currentTenantId s = Some t" "t \<noteq> []"
    and node: "node_at s t p = Inr (Some (FileNode q (sha256 B) sz m c md))"
    and rows: "blob_rows s (sha256 B) \<noteq> []"
    and refs: "list_all (\<lambda>b. 1 \<le> b_reference_count b \<and> b_reference_count b < 2147483647)
                 (blob_rows s (sha256 B))"
  shows "result (writeFile mime_lookup now p B) s = Inr ()
       \<and> new_calls (writeFile mime_lookup now p B) s
           = BlobExists (sha256 B)
             # (if blob_at s (sha256 B) = None then [BlobWrite (sha256 B)] else [])
             @ [GetNodeByPath p, UpdateNode p,
                IncrementBlobRefCount (sha256 B), DecrementBlobRefCount (sha256 B)]
       \<and> node_at (after (writeFile mime_lookup now p B) s) t p
           = Inr (Some (FileNode p (sha256 B) (Some (length B)) m c now))
       \<and> blobs (after (writeFile mime_lookup now p B) s) = touch_blob now (sha256 B) (blobs s)
       \<and> refcounts (after (writeFile mime_lookup now p B) s) (sha256 B) = refcounts s (sha256 B)
       \<and> files (after (writeFile mime_lookup now p B) s) = files_after_write s B"
proof -
  let ?H = "sha256 B"
  let ?inc = "map (\<lambda>b. if has_hash ?H b
                then b\<lparr>b_reference_count := b_reference_count b + 1, b_last_accessed_at := now\<rparr>
                else b) (blobs s)"
  let ?ret = "map b_reference_count (filter (has_hash ?H) (blobs s))"
  from node_at_File_facts [OF node] have q: "q = p" and v: "FilePath_create p = Inr p" by simp_all
  have n: "first_node (rows_at t p (fs_nodes s)) = Inr (Some (FileNode p ?H sz m c md))"
    using node_at_InrD [OF node] q by simp
  have r1: "list_all (\<lambda>b. b_reference_count b < 2147483647) (filter (has_hash ?H) (blobs s))"
    and r2: "list_all (\<lambda>b. 1 \<le> b_reference_count b) (filter (has_hash ?H) (blobs s))"
    using refs by (simp_all add: blob_rows_def list_all_iff)
  have ne: "filter (has_hash ?H) (blobs s) \<noteq> []" using rows by (simp add: blob_rows_def)
  have i: "INCREMENT_BLOB_REF now ?H (blobs s) = Inr ?inc"
    by (rule INCREMENT_present [OF ne r1])
  have d: "DECREMENT_BLOB_REF now ?H ?inc = Inr (?ret, touch_blob now ?H (blobs s))"
    by (rule DECREMENT_after_INCREMENT_same [OF r2])
  have hd: "?ret \<noteq> []" "hd ?ret \<noteq> 0"
    using ne r2 by (cases "filter (has_hash ?H) (blobs s)"; simp)+
  note u = writeFile_update [OF tenant v n i d, of mime_lookup]
  note uc = writeFile_update_calls [OF tenant v n i d, of mime_lookup]
  have nd: "node_at (after (writeFile mime_lookup now p B) s) t p
           = Inr (Some (FileNode p ?H (Some (length B)) m c now))"
    unfolding node_at_rows [OF text_ok_valid [OF v]] after_def u(2)
    by (rule node_at_after_update [OF n]) simp
  show ?thesis
    using u uc hd nd
    by (simp add: result_def after_def blob_at_def refcounts_def blob_rows_def refcounts_touch_blob)
qed

text \<open>
  Writing "Hello World" to \<^verbatim>\<open>/hello.txt\<close> a second time: one node, reference count 1,
  \<^verbatim>\<open>modifiedAt\<close> of the second call, the blob files unchanged.
\<close>

theorem rewrite_same_content_witness:
  "node_at hello_store tenant1 ''/hello.txt''
     = Inr (Some (FileNode ''/hello.txt'' (sha256 hello) (Some 11) (Some ''text/plain'') 2 2))
   \<and> refcounts hello_store (sha256 hello) = [1]
   \<and> result (writeFile sample_mime 3 ''/hello.txt'' hello) hello_store = Inr ()
   \<and> new_calls (writeFile sample_mime 3 ''/hello.txt'' hello) hello_store
       = [BlobExists (sha256 hello), GetNodeByPath ''/hello.txt'', UpdateNode ''/hello.txt'',
          IncrementBlobRefCount (sha256 hello), DecrementBlobRefCount (sha256 hello)]
   \<and> node_at (after (writeFile sample_mime 3 ''/hello.txt'' hello) hello_store) tenant1 ''/hello.txt''
       = Inr (Some (FileNode ''/hello.txt'' (sha256 hello) (Some 11) (Some ''text/plain'') 2 3))
   \<and> refcounts (after (writeFile sample_mime 3 ''/hello.txt'' hello) hello_store) (sha256 hello) = [1]
   \<and> files (after (writeFile sample_mime 3 ''/hello.txt'' hello) hello_store) = files hello_store"
proof -
  have h: "currentTenantId hello_store = Some tenant1" "tenant1 \<noteq> []"
    "node_at hello_store tenant1 ''/hello.txt''
       = Inr (Some (FileNode ''/hello.txt'' (sha256 hello) (Some 11) (Some ''text/plain'') 2 2))"
    "blob_rows hello_store (sha256 hello) \<noteq> []"
    "list_all (\<lambda>b. 1 \<le> b_reference_count b \<and> b_reference_count b < 2147483647)
       (blob_rows hello_store (sha256 hello))"
    by (simp_all add: hello_store_simps lookup_defs tenant1_def)
  have r: "refcounts hello_store (sha256 hello) = [1]"
    by (simp add: hello_store_simps lookup_defs)
  have b: "blob_at hello_store (sha256 hello) = Some hello"
    by (simp add: hello_store_simps blob_at_def)
  from rewrite_same_content [OF h, of sample_mime 3] h(3) r b
  show ?thesis by (simp add: files_after_write_def blob_at_def hello_def)
qed

text \<open>The second write does call the two reference count operations.\<close>

theorem rewrite_same_content_counterexample:
  "node_at hello_store tenant1 ''/hello.txt''
     = Inr (Some (FileNode ''/hello.txt'' (sha256 hello) (Some 11) (Some ''text/plain'') 2 2))
   \<and> list_ex isIncrement (new_calls (writeFile sample_mime 3 ''/hello.txt'' hello) hello_store)
   \<and> list_ex isDecrement (new_calls (writeFile sample_mime 3 ''/hello.txt'' hello) hello_store)"
proof -
  have n: "node_at hello_store tenant1 ''/hello.txt''
     = Inr (Some (FileNode ''/hello.txt'' (sha256 hello) (Some 11) (Some ''text/plain'') 2 2))"
    by (simp add: hello_store_simps lookup_defs tenant1_def)
  have c: "new_calls (writeFile sample_mime 3 ''/hello.txt'' hello) hello_store
       = [BlobExists (sha256 hello), GetNodeByPath ''/hello.txt'', UpdateNode ''/hello.txt'',
          IncrementBlobRefCount (sha256 hello), DecrementBlobRefCount (sha256 hello)]"
    unfolding new_calls_def hello_store_def root_store_def
    by (simp add: eval_defs sample_defs hello_def)
  from n c show ?thesis by simp
qed

section \<open>The order of the calls of writeFile\<close>

text \<open>
  C9. In every execution of \<^verbatim>\<open>writeFile\<close>, from every state: no
  \<^verbatim>\<open>incrementBlobRefCount\<close> call comes after a \<^verbatim>\<open>decrementBlobRefCount\<close> call, and no
  decrement comes before the increment of the new hash (so where the old hash is
  decremented, the new one was incremented before); no blob write comes after a
  \<^verbatim>\<open>createNode\<close>, \<^verbatim>\<open>updateNode\<close> or \<^verbatim>\<open>incrementBlobRefCount\<close> call, and the only blob
  written is the new content under its hash.
\<close>

theorem writeFile_call_order:
  "calls (after (writeFile mime_lookup now path content) s)
     = calls s @ new_calls (writeFile mime_lookup now path content) s
   \<and> precedes isIncrement isDecrement (new_calls (writeFile mime_lookup now path content) s)
   \<and> guarded (IncrementBlobRefCount (sha256 content)) isDecrement
         (new_calls (writeFile mime_lookup now path content) s)
   \<and> precedes isBlobWrite isMetadataWrite (new_calls (writeFile mime_lookup now path content) s)
   \<and> list_all (\<lambda>c. c = BlobWrite (sha256 content))
         (filter isBlobWrite (new_calls (writeFile mime_lookup now path content) s))"
  using holds_calls [OF wf_inc_before_dec, of mime_lookup now path content s]
        holdsD [OF wf_inc_before_dec, of mime_lookup now path content s]
        holdsD [OF wf_dec_has_inc, of content mime_lookup now path s]
        holdsD [OF wf_write_first, of mime_lookup now path content s]
        holdsD [OF wf_write_hash, of content mime_lookup now path s]
  by simp

text \<open>
  Replacing "Hello World" at \<^verbatim>\<open>/hello.txt\<close> by the empty buffer: the blob is written
  first, the new hash is incremented, then the old one is decremented and its blob
  deleted.
\<close>

theorem writeFile_call_order_witness:
  "new_calls (writeFile sample_mime 3 ''/hello.txt'' []) hello_store
     = [BlobExists (sha256 []), BlobWrite (sha256 []), GetNodeByPath ''/hello.txt'',
        UpdateNode ''/hello.txt'', IncrementBlobRefCount (sha256 []),
        DecrementBlobRefCount (sha256 hello), BlobDelete (sha256 hello)]
   \<and> precedes isIncrement isDecrement
         (new_calls (writeFile sample_mime 3 ''/hello.txt'' []) hello_store)
   \<and> guarded (IncrementBlobRefCount (sha256 [])) isDecrement
         (new_calls (writeFile sample_mime 3 ''/hello.txt'' []) hello_store)
   \<and> precedes isBlobWrite isMetadataWrite
         (new_calls (writeFile sample_mime 3 ''/hello.txt'' []) hello_store)"
proof -
  have c: "new_calls (writeFile sample_mime 3 ''/hello.txt'' []) hello_store
     = [BlobExists (sha256 []), BlobWrite (sha256 []), GetNodeByPath ''/hello.txt'',
        UpdateNode ''/hello.txt'', IncrementBlobRefCount (sha256 []),
        DecrementBlobRefCount (sha256 hello), BlobDelete (sha256 hello)]"
    unfolding new_calls_def hello_store_def root_store_def
    by (simp add: eval_defs sample_defs)
  from writeFile_call_order [of sample_mime 3 "''/hello.txt''" "[]" hello_store] c
  show ?thesis by simp
qed

section \<open>Orphan reclamation: a run that never ends\<close>

lemma blobs_orphan_store:
  "blobs orphan_store =
     [\<lparr>b_content_hash = sha256 hello, b_reference_count = 0, b_size = 0,
       b_created_at = 2, b_last_accessed_at = 3\<rparr>]"
  unfolding orphan_store_def
  by (simp add: eval_defs sample_defs)

text \<open>
  C10. \<^verbatim>\<open>cleanupInBatches(N)\<close> need not terminate. In the store left by
  \<^verbatim>\<open>createDirectory("/")\<close>, \<^verbatim>\<open>writeFile("/hello.txt", "Hello World")\<close> and
  \<^verbatim>\<open>deleteFile("/hello.txt")\<close> the table \<^verbatim>\<open>blobs\<close> holds one row with reference count 0.
  Each pass of \<^verbatim>\<open>cleanupInBatches(1)\<close> fetches that hash, deletes the blob file and returns
  1; no statement of the repository removes or changes the row, so the next pass fetches
  it again and the loop never reaches a pass with fewer than 1 hash.
\<close>

theorem cleanupInBatches_one_orphan_diverges:
  "GET_ORPHAN_BLOBS (blobs orphan_store) = [hello_hash]
   \<and> cleanupInBatches 1 orphan_store = None"
proof -
  have g: "GET_ORPHAN_BLOBS (blobs orphan_store) = [hello_hash]"
    by (simp add: blobs_orphan_store GET_ORPHAN_BLOBS_def sha256_hello)
  have "cleanupInBatches 1 orphan_store = None"
    by (rule cleanupInBatches_never_returns) (simp add: g)
  with g show ?thesis by simp
qed

end
